theory Spec2Isabelle
  imports Complex_Main
begin

text \<open>
  A model of the Express backend in \<^verbatim>\<open>backend/index.js\<close> and \<^verbatim>\<open>backend/auth.js\<close>: the two
  request throttles, the input validators, the process runner, the flash route and the
  auth gate. Mutable stores are passed in and returned, the clock and the outside world
  (file system, token verification, the external tool) are parameters, and every early
  \<^verbatim>\<open>return res.status(...)\<close> is a value.
\<close>

section \<open>JavaScript values\<close>

text \<open>
  The handlers of \<^verbatim>\<open>backend/index.js\<close> read fields of a parsed JSON body, so a field may
  hold any JavaScript value. Strings that come with a request, and the literals of the
  code, are lists of code units below 256; the text decoded from a child process's output
  is a list of UTF-16 code units (natural numbers). Numbers are integers (the code looks
  only at their type tag and their truthiness); every object or array is \<open>JObject\<close>.
\<close>

datatype jsval = JUndefined | JNull | JBool bool | JNum int | JStr string | JObject

text \<open>\<^verbatim>\<open>!v\<close> is \<open>\<not> truthy v\<close>.\<close>

fun truthy :: "jsval \<Rightarrow> bool" where
  "truthy JUndefined = False"
| "truthy JNull = False"
| "truthy (JBool b) = b"
| "truthy (JNum n) = (n \<noteq> 0)"
| "truthy (JStr s) = (s \<noteq> [])"
| "truthy JObject = True"

fun is_string :: "jsval \<Rightarrow> bool" where
  "is_string (JStr s) = True"
| "is_string v = False"

section \<open>Sliding-window counter (\<^verbatim>\<open>rateLimit\<close>)\<close>

text \<open>
  \<^verbatim>\<open>rateLimitStore\<close> is a \<^verbatim>\<open>Map\<close> from keys to \<^verbatim>\<open>{ windowStart, count }\<close>. The clock
  \<^verbatim>\<open>Date.now()\<close> is a parameter (milliseconds, an integer); the store is passed in and
  returned. \<^verbatim>\<open>Math.ceil(x / 1000)\<close> is the ceiling of the exact quotient: for the
  millisecond counts that occur the floating-point quotient rounds to the same integer.
\<close>

record rate_record =
  windowStart :: int
  count :: nat

record rate_result =
  allowed :: bool
  remaining :: "int option"
  retryAfter :: "int option"

type_synonym rate_store = "string \<rightharpoonup> rate_record"

definition RATE_LIMIT_WINDOW_MS :: int where
  "RATE_LIMIT_WINDOW_MS = 15 * 60 * 1000"

definition RATE_LIMIT_MAX_REQUESTS :: nat where
  "RATE_LIMIT_MAX_REQUESTS = 10"

definition ceil_seconds :: "int \<Rightarrow> int" where
  "ceil_seconds ms = \<lceil>(of_int ms :: rat) / 1000\<rceil>"

definition rateLimit :: "int \<Rightarrow> string \<Rightarrow> rate_store \<Rightarrow> rate_result \<times> rate_store" where
  "rateLimit now key store =
     (case store key of
        None \<Rightarrow>
          (\<lparr>allowed = True, remaining = Some (int RATE_LIMIT_MAX_REQUESTS - 1), retryAfter = None\<rparr>,
           store(key \<mapsto> \<lparr>windowStart = now, count = 1\<rparr>))
      | Some record \<Rightarrow>
          if now - windowStart record > RATE_LIMIT_WINDOW_MS then
            (\<lparr>allowed = True, remaining = Some (int RATE_LIMIT_MAX_REQUESTS - 1), retryAfter = None\<rparr>,
             store(key \<mapsto> \<lparr>windowStart = now, count = 1\<rparr>))
          else if count record \<ge> RATE_LIMIT_MAX_REQUESTS then
            (\<lparr>allowed = False, remaining = None,
              retryAfter = Some (ceil_seconds (RATE_LIMIT_WINDOW_MS - (now - windowStart record)))\<rparr>,
             store)
          else
            (\<lparr>allowed = True,
              remaining = Some (int RATE_LIMIT_MAX_REQUESTS - int (count record + 1)),
              retryAfter = None\<rparr>,
             store(key \<mapsto> record\<lparr>count := count record + 1\<rparr>)))"

text \<open>Consecutive calls for one key, at the given clock readings, threading the store.\<close>

fun rateLimit_calls :: "string \<Rightarrow> int list \<Rightarrow> rate_store \<Rightarrow> rate_result list \<times> rate_store" where
  "rateLimit_calls key [] store = ([], store)"
| "rateLimit_calls key (t # ts) store =
     (case rateLimit t key store of
        (r, store') \<Rightarrow> (case rateLimit_calls key ts store' of (rs, store'') \<Rightarrow> (r # rs, store'')))"

definition allow :: "int \<Rightarrow> rate_result" where
  "allow n = \<lparr>allowed = True, remaining = Some n, retryAfter = None\<rparr>"

definition deny :: "int \<Rightarrow> rate_result" where
  "deny n = \<lparr>allowed = False, remaining = None, retryAfter = Some n\<rparr>"

section \<open>Credential failure throttle\<close>

record credential_record =
  failures :: nat
  firstFailure :: int

record throttle_status =
  blocked :: bool
  throttle_retryAfter :: "int option"

type_synonym credential_store = "string \<rightharpoonup> credential_record"

definition CREDENTIAL_WINDOW_MS :: int where
  "CREDENTIAL_WINDOW_MS = 10 * 60 * 1000"

definition CREDENTIAL_MAX_FAILURES :: nat where
  "CREDENTIAL_MAX_FAILURES = 5"

definition getCredentialThrottle ::
  "int \<Rightarrow> string \<Rightarrow> credential_store \<Rightarrow> throttle_status \<times> credential_store" where
  "getCredentialThrottle now key store =
     (if key = [] then (\<lparr>blocked = False, throttle_retryAfter = None\<rparr>, store)
      else case store key of
        None \<Rightarrow> (\<lparr>blocked = False, throttle_retryAfter = None\<rparr>, store)
      | Some record \<Rightarrow>
          if now - firstFailure record > CREDENTIAL_WINDOW_MS then
            (\<lparr>blocked = False, throttle_retryAfter = None\<rparr>, store(key := None))
          else if failures record \<ge> CREDENTIAL_MAX_FAILURES then
            (\<lparr>blocked = True,
              throttle_retryAfter =
                Some (ceil_seconds (CREDENTIAL_WINDOW_MS - (now - firstFailure record)))\<rparr>,
             store)
          else (\<lparr>blocked = False, throttle_retryAfter = None\<rparr>, store))"

definition recordCredentialFailure :: "int \<Rightarrow> string \<Rightarrow> credential_store \<Rightarrow> credential_store" where
  "recordCredentialFailure now key store =
     (if key = [] then store
      else case store key of
        None \<Rightarrow> store(key \<mapsto> \<lparr>failures = 1, firstFailure = now\<rparr>)
      | Some record \<Rightarrow>
          if now - firstFailure record > CREDENTIAL_WINDOW_MS then
            store(key \<mapsto> \<lparr>failures = 1, firstFailure = now\<rparr>)
          else store(key \<mapsto> record\<lparr>failures := failures record + 1\<rparr>))"

definition resetCredentialFailures :: "string \<Rightarrow> credential_store \<Rightarrow> credential_store" where
  "resetCredentialFailures key store = store(key := None)"

text \<open>Consecutive failures of one identity, at the given clock readings.\<close>

fun recordCredentialFailures :: "string \<Rightarrow> int list \<Rightarrow> credential_store \<Rightarrow> credential_store" where
  "recordCredentialFailures key [] store = store"
| "recordCredentialFailures key (t # ts) store =
     recordCredentialFailures key ts (recordCredentialFailure t key store)"

text \<open>Two stores for concrete runs: one with no record, one whose record for a key has
  used up its window, which started at clock reading 0.\<close>

definition no_rate_records :: rate_store where
  "no_rate_records = Map.empty"

definition full_window_store :: rate_store where
  "full_window_store = [''login:10.0.0.7'' \<mapsto> \<lparr>windowStart = 0, count = 10\<rparr>]"

text \<open>
  The start of the window in which \<^verbatim>\<open>recordCredentialFailure\<close> counts a failure arriving at
  \<open>now\<close>: the live record's \<open>firstFailure\<close>, or \<open>now\<close> itself when there is no record or
  the record has expired.
\<close>

definition credential_window_start :: "int \<Rightarrow> string \<Rightarrow> credential_store \<Rightarrow> int" where
  "credential_window_start now key store =
     (case store key of
        None \<Rightarrow> now
      | Some record \<Rightarrow>
          if now - firstFailure record > CREDENTIAL_WINDOW_MS then now else firstFailure record)"

definition no_credential_records :: credential_store where
  "no_credential_records = Map.empty"

section \<open>String helpers of the JavaScript runtime\<close>

text \<open>
  \<^verbatim>\<open>String.prototype.trim\<close> strips white space and line terminators from both ends; among
  the code units below 256 these are TAB, LF, VT, FF, CR, SPACE and NO-BREAK SPACE.
\<close>

definition is_js_space :: "char \<Rightarrow> bool" where
  "is_js_space c = (of_char c \<in> {9, 10, 11, 12, 13, 32, 160 :: nat})"

definition trim :: "string \<Rightarrow> string" where
  "trim s = rev (dropWhile is_js_space (rev (dropWhile is_js_space s)))"

text \<open>\<^verbatim>\<open>s.replace(/\\/g, '/')\<close>: every backslash (code unit 92) becomes a slash.\<close>

definition backslashes_to_slashes :: "string \<Rightarrow> string" where
  "backslashes_to_slashes s = map (\<lambda>c. if c = CHR 0x5C then CHR ''/'' else c) s"

text \<open>\<^verbatim>\<open>s.includes(sub)\<close>: \<open>sub\<close> occurs in \<open>s\<close> as a contiguous substring.\<close>

fun str_includes :: "string \<Rightarrow> string \<Rightarrow> bool" where
  "str_includes [] sub = (sub = [])"
| "str_includes (c # cs) sub = (take (length sub) (c # cs) = sub \<or> str_includes cs sub)"

text \<open>\<^verbatim>\<open>s.startsWith(p)\<close>.\<close>

definition startsWith :: "string \<Rightarrow> string \<Rightarrow> bool" where
  "startsWith s p = (take (length p) s = p)"

text \<open>\<^verbatim>\<open>s.split(sep)\<close> for a one-character separator: the pieces between separators, empty
  pieces kept, so the result is never empty.\<close>

fun split :: "char \<Rightarrow> string \<Rightarrow> string list" where
  "split sep [] = [[]]"
| "split sep (c # cs) =
     (if c = sep then [] # split sep cs
      else (case split sep cs of p # ps \<Rightarrow> (c # p) # ps | [] \<Rightarrow> [[c]]))"

text \<open>\<^verbatim>\<open>parts.join('/')\<close>.\<close>

fun join_slash :: "string list \<Rightarrow> string" where
  "join_slash [] = []"
| "join_slash [p] = p"
| "join_slash (p # q # ps) = p @ CHR ''/'' # join_slash (q # ps)"

text \<open>\<^verbatim>\<open>s.toLowerCase()\<close> on code units below 256: A-Z and the Latin-1 capitals
  (192-222 except the multiplication sign 215) move up by 32.\<close>

definition lower_char :: "char \<Rightarrow> char" where
  "lower_char c =
     (let n = (of_char c :: nat)
      in if (65 \<le> n \<and> n \<le> 90) \<or> (192 \<le> n \<and> n \<le> 222 \<and> n \<noteq> 215) then char_of (n + 32) else c)"

definition toLowerCase :: "string \<Rightarrow> string" where
  "toLowerCase s = map lower_char s"

text \<open>The regular-expression class \<^verbatim>\<open>\w\<close>: ASCII letters, digits and the underscore.\<close>

definition is_word_char :: "char \<Rightarrow> bool" where
  "is_word_char c =
     (let n = (of_char c :: nat)
      in (48 \<le> n \<and> n \<le> 57) \<or> (65 \<le> n \<and> n \<le> 90) \<or> (97 \<le> n \<and> n \<le> 122) \<or> n = 95)"

text \<open>
  \<^verbatim>\<open>chunk.toString()\<close> on the \<^verbatim>\<open>Buffer\<close> a stream delivers: the bytes are decoded as
  UTF-8 into UTF-16 code units, every chunk on its own. A byte here is a \<open>char\<close>, a code
  unit a natural number. Each maximal ill-formed part of the input (a stray continuation
  byte, an overlong or surrogate lead, a sequence cut short) becomes one U+FFFD (65533), as
  the runtime's decoder does; a code point above U+FFFF becomes a surrogate pair.
  \<open>utf8_first b0 bs\<close> is the code point that starts with the byte \<open>b0\<close> and the number
  of bytes of \<open>bs\<close> it takes up.
\<close>

definition is_cont :: "nat \<Rightarrow> bool" where
  "is_cont b = (128 \<le> b \<and> b \<le> 191)"

definition second_ok :: "nat \<Rightarrow> nat \<Rightarrow> bool" where
  "second_ok b0 b1 =
     (if b0 = 224 then 160 \<le> b1 \<and> b1 \<le> 191
      else if b0 = 237 then 128 \<le> b1 \<and> b1 \<le> 159
      else if b0 = 240 then 144 \<le> b1 \<and> b1 \<le> 191
      else if b0 = 244 then 128 \<le> b1 \<and> b1 \<le> 143
      else is_cont b1)"

definition utf8_first :: "nat \<Rightarrow> nat list \<Rightarrow> nat \<times> nat" where
  "utf8_first b0 bs =
     (if b0 < 128 then (b0, 0)
      else if 194 \<le> b0 \<and> b0 \<le> 223 then
        (case bs of
           b1 # bs1 \<Rightarrow> if is_cont b1 then ((b0 - 192) * 64 + (b1 - 128), 1) else (65533, 0)
         | [] \<Rightarrow> (65533, 0))
      else if 224 \<le> b0 \<and> b0 \<le> 239 then
        (case bs of
           b1 # b2 # bs2 \<Rightarrow>
             if \<not> second_ok b0 b1 then (65533, 0)
             else if is_cont b2 then ((b0 - 224) * 4096 + (b1 - 128) * 64 + (b2 - 128), 2)
             else (65533, 1)
         | [b1] \<Rightarrow> if second_ok b0 b1 then (65533, 1) else (65533, 0)
         | [] \<Rightarrow> (65533, 0))
      else if 240 \<le> b0 \<and> b0 \<le> 244 then
        (case bs of
           b1 # b2 # b3 # bs3 \<Rightarrow>
             if \<not> second_ok b0 b1 then (65533, 0)
             else if \<not> is_cont b2 then (65533, 1)
             else if is_cont b3
             then ((b0 - 240) * 262144 + (b1 - 128) * 4096 + (b2 - 128) * 64 + (b3 - 128), 3)
             else (65533, 2)
         | [b1, b2] \<Rightarrow>
             if \<not> second_ok b0 b1 then (65533, 0)
             else if is_cont b2 then (65533, 2) else (65533, 1)
         | [b1] \<Rightarrow> if second_ok b0 b1 then (65533, 1) else (65533, 0)
         | [] \<Rightarrow> (65533, 0))
      else (65533, 0))"

fun utf8_decode :: "nat list \<Rightarrow> nat list" where
  "utf8_decode [] = []"
| "utf8_decode (b0 # bs) =
     (case utf8_first b0 bs of (cp, taken) \<Rightarrow> cp # utf8_decode (drop taken bs))"

definition utf16_units :: "nat \<Rightarrow> nat list" where
  "utf16_units cp =
     (if cp < 65536 then [cp]
      else [55296 + (cp - 65536) div 1024, 56320 + (cp - 65536) mod 1024])"

definition toString :: "string \<Rightarrow> nat list" where
  "toString chunk = concat (map utf16_units (utf8_decode (map of_char chunk)))"

section \<open>The \<^verbatim>\<open>path\<close> module (POSIX flavour)\<close>

text \<open>
  \<^verbatim>\<open>path.posix.normalize\<close>, \<^verbatim>\<open>path.resolve\<close> and \<^verbatim>\<open>path.extname\<close> belong to the Node.js
  runtime. They are modelled after its implementation, segment by segment:
  \<^verbatim>\<open>normalizeString\<close> walks the segments between slashes, drops empty and \<^verbatim>\<open>.\<close>
  segments, lets \<^verbatim>\<open>..\<close> remove the previous segment (unless that is itself \<^verbatim>\<open>..\<close> or
  there is none, in which case \<^verbatim>\<open>..\<close> is kept only when \<^verbatim>\<open>allowAboveRoot\<close> holds), and
  joins what remains with slashes.
\<close>

definition normalizeSegment :: "bool \<Rightarrow> string list \<Rightarrow> string \<Rightarrow> string list" where
  "normalizeSegment allowAboveRoot res seg =
     (if seg = [] \<or> seg = ''.'' then res
      else if seg = ''..'' then
        (if res \<noteq> [] \<and> last res \<noteq> ''..'' then butlast res
         else if allowAboveRoot then res @ [''..''] else res)
      else res @ [seg])"

definition normalizeString :: "string \<Rightarrow> bool \<Rightarrow> string" where
  "normalizeString path allowAboveRoot =
     join_slash (foldl (normalizeSegment allowAboveRoot) [] (split CHR ''/'' path))"

definition posix_normalize :: "string \<Rightarrow> string" where
  "posix_normalize path =
     (if path = [] then ''.''
      else
        let isAbsolute = (hd path = CHR ''/'');
            trailingSeparator = (last path = CHR ''/'');
            p = normalizeString path (\<not> isAbsolute)
        in if p = [] then (if isAbsolute then ''/'' else if trailingSeparator then ''./'' else ''.'')
           else
             let p' = (if trailingSeparator then p @ ''/'' else p)
             in if isAbsolute then CHR ''/'' # p' else p')"

text \<open>
  \<^verbatim>\<open>path.resolve(...args)\<close> prepends arguments from the right, then the working directory,
  until one is absolute; empty arguments are skipped.
\<close>

fun resolve_loop :: "string list \<Rightarrow> string \<Rightarrow> string \<times> bool" where
  "resolve_loop [] resolvedPath = (resolvedPath, False)"
| "resolve_loop (p # ps) resolvedPath =
     (if p = [] then resolve_loop ps resolvedPath
      else if hd p = CHR ''/'' then (p @ CHR ''/'' # resolvedPath, True)
      else resolve_loop ps (p @ CHR ''/'' # resolvedPath))"

definition posix_resolve :: "string \<Rightarrow> string list \<Rightarrow> string" where
  "posix_resolve cwd args =
     (case resolve_loop (rev args @ [cwd]) [] of
        (resolvedPath, resolvedAbsolute) \<Rightarrow>
          let n = normalizeString resolvedPath (\<not> resolvedAbsolute)
          in if resolvedAbsolute then CHR ''/'' # n else if n \<noteq> [] then n else ''.'')"

text \<open>
  \<^verbatim>\<open>path.extname\<close>: the last path component (trailing slashes ignored) from its last dot
  on; empty when the component has no dot, when its only dot is its first character, or
  when the component is \<^verbatim>\<open>..\<close>.
\<close>

definition last_component :: "string \<Rightarrow> string" where
  "last_component path =
     rev (takeWhile (\<lambda>c. c \<noteq> CHR ''/'') (dropWhile (\<lambda>c. c = CHR ''/'') (rev path)))"

definition posix_extname :: "string \<Rightarrow> string" where
  "posix_extname path =
     (let base = last_component path;
          ext = rev (takeWhile (\<lambda>c. c \<noteq> CHR ''.'') (rev base))
      in if CHR ''.'' \<notin> set base then []
         else if length ext + 1 = length base then []
         else if base = ''..'' then []
         else CHR ''.'' # ext)"

section \<open>Input validators\<close>

definition sanitizePath :: "jsval \<Rightarrow> string option" where
  "sanitizePath inputPath =
     (case inputPath of
        JStr s \<Rightarrow>
          let trimmed = trim (backslashes_to_slashes s)
          in if trimmed = [] then None
             else
               let normalized = posix_normalize trimmed
               in if str_includes normalized ''..'' then None else Some normalized
      | _ \<Rightarrow> None)"

text \<open>\<^verbatim>\<open>SERIAL_PORT_PATTERN = /^[\w\-\/.:]+$/\<close> and \<^verbatim>\<open>FQBN_PATTERN = /^[\w:.\-]{3,120}$/\<close>.\<close>

definition SERIAL_PORT_PATTERN :: "string \<Rightarrow> bool" where
  "SERIAL_PORT_PATTERN s =
     (s \<noteq> [] \<and> list_all (\<lambda>c. is_word_char c \<or> c \<in> set ''-/.:'') s)"

definition FQBN_PATTERN :: "string \<Rightarrow> bool" where
  "FQBN_PATTERN s =
     (3 \<le> length s \<and> length s \<le> 120 \<and> list_all (\<lambda>c. is_word_char c \<or> c \<in> set '':.-'') s)"

definition isValidSerialPort :: "jsval \<Rightarrow> bool" where
  "isValidSerialPort portPath =
     (case portPath of JStr s \<Rightarrow> length s \<le> 200 \<and> SERIAL_PORT_PATTERN s | _ \<Rightarrow> False)"

definition isValidFqbn :: "jsval \<Rightarrow> bool" where
  "isValidFqbn fqbn =
     (if \<not> truthy fqbn then True
      else case fqbn of JStr s \<Rightarrow> length s \<le> 120 \<and> FQBN_PATTERN s | _ \<Rightarrow> False)"

definition ALLOWED_SKETCH_EXTENSIONS :: "string set" where
  "ALLOWED_SKETCH_EXTENSIONS = {''.ino'', ''.bin''}"

section \<open>Process runner (\<^verbatim>\<open>spawnCliAndStream\<close>)\<close>

text \<open>
  What the child process and the timers deliver to the listeners that
  \<^verbatim>\<open>spawnCliAndStream\<close> registers, in the order the event loop runs them: a chunk of
  bytes on stdout or stderr, the kill timer firing, the three-second \<^verbatim>\<open>SIGKILL\<close> timer firing, the child's
  \<^verbatim>\<open>error\<close> event, and its \<^verbatim>\<open>close\<close> event with the exit code (\<^verbatim>\<open>null\<close> when a signal
  ended the process).
\<close>

datatype proc_event =
  Data string
| KillTimer
| GraceTimer
| ErrorEvent string
| Close "int option"

text \<open>
  The \<^verbatim>\<open>Error\<close> objects the runner rejects with: \<^verbatim>\<open>message\<close>, and the fields it sets by
  hand. A field that a handler does not set is \<open>None\<close> (\<^verbatim>\<open>undefined\<close>).
\<close>

record cli_error =
  message :: string
  cause :: "string option"
  err_timedOut :: "bool option"
  cliOutput :: "nat list"

datatype 'a promise = Pending | Resolved 'a | Rejected cli_error

text \<open>
  The variables of one \<^verbatim>\<open>spawnCliAndStream\<close> call: \<^verbatim>\<open>output\<close> (here \<open>outputBuf\<close>),
  \<^verbatim>\<open>timedOut\<close>, whether each timer is still pending, the signals sent to the child, and the
  state of the returned promise.
\<close>

record runner =
  outputBuf :: "nat list"
  timedOut :: bool
  killTimerArmed :: bool
  graceTimerArmed :: bool
  signals :: "string list"
  settled :: "nat list promise"

text \<open>
  The options of a call: each is absent or a number; a value that is not positive falls
  back to the default. The length of the timeout decides only when the kill timer fires,
  which the order of the events already says.
\<close>

definition CLI_MAX_OUTPUT_BYTES :: nat where
  "CLI_MAX_OUTPUT_BYTES = 4000"

record spawn_options =
  timeoutMs :: "nat option"
  maxBuffer :: "nat option"

definition effective_maxBuffer :: "spawn_options \<Rightarrow> nat" where
  "effective_maxBuffer options =
     (case maxBuffer options of Some n \<Rightarrow> if n > 0 then n else CLI_MAX_OUTPUT_BYTES
      | None \<Rightarrow> CLI_MAX_OUTPUT_BYTES)"

definition no_options :: spawn_options where
  "no_options = \<lparr>timeoutMs = None, maxBuffer = None\<rparr>"

text \<open>\<^verbatim>\<open>output += chunk.toString()\<close> appends the decoded chunk;
  \<^verbatim>\<open>output.slice(output.length - maxBuffer)\<close> drops the first \<open>length - maxBuffer\<close> code
  units.\<close>

definition appendChunk :: "nat \<Rightarrow> nat list \<Rightarrow> string \<Rightarrow> nat list" where
  "appendChunk maxBuf out chunk =
     (let out' = out @ toString chunk
      in if length out' > maxBuf then drop (length out' - maxBuf) out' else out')"

text \<open>Decimal digits of a number, as a template literal prints an integer.\<close>

fun decimal :: "nat \<Rightarrow> string" where
  "decimal n =
     (if n < 10 then [''0123456789'' ! n] else decimal (n div 10) @ [''0123456789'' ! (n mod 10)])"

declare decimal.simps [simp del]

definition show_code :: "int option \<Rightarrow> string" where
  "show_code code =
     (case code of
        None \<Rightarrow> ''null''
      | Some n \<Rightarrow> if n < 0 then CHR ''-'' # decimal (nat (- n)) else decimal (nat n))"

text \<open>A promise settles once: \<^verbatim>\<open>resolve\<close> and \<^verbatim>\<open>reject\<close> on a settled promise do nothing.\<close>

definition settle :: "nat list promise \<Rightarrow> nat list promise \<Rightarrow> nat list promise" where
  "settle outcome p = (case p of Pending \<Rightarrow> outcome | _ \<Rightarrow> p)"

definition on_error :: "string \<Rightarrow> runner \<Rightarrow> runner" where
  "on_error err r =
     r\<lparr>killTimerArmed := False,
       settled := settle (Rejected \<lparr>message = ''Failed to run arduino-cli'', cause = Some err,
                                     err_timedOut = None, cliOutput = outputBuf r\<rparr>) (settled r)\<rparr>"

definition on_close :: "int option \<Rightarrow> runner \<Rightarrow> runner" where
  "on_close code r =
     (if \<not> timedOut r \<and> code = Some 0 then
        r\<lparr>killTimerArmed := False, settled := settle (Resolved (outputBuf r)) (settled r)\<rparr>
      else
        r\<lparr>killTimerArmed := False,
          settled := settle (Rejected
            \<lparr>message = (if timedOut r then ''arduino-cli timed out''
                         else ''arduino-cli exited with code '' @ show_code code),
             cause = None, err_timedOut = Some (timedOut r), cliOutput = outputBuf r\<rparr>)
            (settled r)\<rparr>)"

fun runner_step :: "nat \<Rightarrow> runner \<Rightarrow> proc_event \<Rightarrow> runner" where
  "runner_step maxBuf r (Data chunk) = r\<lparr>outputBuf := appendChunk maxBuf (outputBuf r) chunk\<rparr>"
| "runner_step maxBuf r KillTimer =
     (if killTimerArmed r
      then r\<lparr>timedOut := True, killTimerArmed := False, graceTimerArmed := True,
             signals := signals r @ [''SIGTERM'']\<rparr>
      else r)"
| "runner_step maxBuf r GraceTimer =
     (if graceTimerArmed r
      then r\<lparr>graceTimerArmed := False, signals := signals r @ [''SIGKILL'']\<rparr>
      else r)"
| "runner_step maxBuf r (ErrorEvent err) = on_error err r"
| "runner_step maxBuf r (Close code) = on_close code r"

definition runner_start :: runner where
  "runner_start = \<lparr>outputBuf = [], timedOut = False, killTimerArmed = True, graceTimerArmed = False,
                    signals = [], settled = Pending\<rparr>"

definition run_events :: "spawn_options \<Rightarrow> proc_event list \<Rightarrow> runner" where
  "run_events options events = foldl (runner_step (effective_maxBuffer options)) runner_start events"

text \<open>
  The promise \<^verbatim>\<open>spawnCliAndStream(args, options)\<close> returns, once the events of the spawned
  process have all been delivered; \<open>Pending\<close> when none of them settled it.
\<close>

definition spawnCliAndStream :: "spawn_options \<Rightarrow> proc_event list \<Rightarrow> nat list promise" where
  "spawnCliAndStream options events = settled (run_events options events)"

section \<open>Auth gate (\<^verbatim>\<open>auth.js\<close>)\<close>

datatype resp_body = ErrorBody string | OkBody string

record http_response =
  status :: nat
  body :: resp_body

definition json_error :: "nat \<Rightarrow> string \<Rightarrow> http_response" where
  "json_error code msg = \<lparr>status = code, body = ErrorBody msg\<rparr>"

text \<open>
  \<^verbatim>\<open>verifyToken\<close> wraps \<^verbatim>\<open>jwt.verify\<close> of the \<^verbatim>\<open>jsonwebtoken\<close> package and returns
  \<^verbatim>\<open>null\<close> whenever that throws, whatever the reason; it is a parameter here. The header
  \<^verbatim>\<open>req.headers.authorization\<close> is absent or a string.
\<close>

definition authMiddleware :: "(string \<Rightarrow> 'u option) \<Rightarrow> string option \<Rightarrow> http_response + 'u" where
  "authMiddleware verifyToken auth =
     (case auth of
        None \<Rightarrow> Inl (json_error 401 ''Missing Authorization header'')
      | Some a \<Rightarrow>
          if a = [] then Inl (json_error 401 ''Missing Authorization header'')
          else
            let parts = split CHR '' '' a
            in if length parts \<noteq> 2 \<or> parts ! 0 \<noteq> ''Bearer''
               then Inl (json_error 401 ''Bad Authorization format'')
               else (case verifyToken (parts ! 1) of
                       None \<Rightarrow> Inl (json_error 401 ''Invalid or expired token'')
                     | Some payload \<Rightarrow> Inr payload))"

section \<open>Flash workflow (\<^verbatim>\<open>POST /api/flash\<close>)\<close>

text \<open>
  What the handler reads from outside: \<^verbatim>\<open>__dirname\<close> and the working directory (for
  \<^verbatim>\<open>path.resolve\<close>), the file system as \<^verbatim>\<open>fs.statSync\<close> sees it (\<open>None\<close> when it
  throws), token verification, and the external tool: \<open>cli history args\<close> is the event
  sequence of the process spawned as \<^verbatim>\<open>arduino-cli args\<close> after the processes in
  \<open>history\<close> (argument vectors, oldest first) were spawned by the same request.
\<close>

datatype file_kind = RegularFile | Directory | OtherFile

record 'u env =
  dirname :: string
  cwd :: string
  statSync :: "string \<Rightarrow> file_kind option"
  verifyToken :: "string \<Rightarrow> 'u option"
  cli :: "string list list \<Rightarrow> string list \<Rightarrow> proc_event list"

definition PROJECT_ROOT :: "'u env \<Rightarrow> string" where
  "PROJECT_ROOT e = posix_resolve (cwd e) [dirname e, ''..'']"

text \<open>\<^verbatim>\<open>const { sketchPath, port, fqbn } = req.body || {}\<close>: a missing body or field is
  \<open>JUndefined\<close>.\<close>

record flash_body =
  sketchPath :: jsval
  port :: jsval
  fqbn :: jsval

record flash_request =
  authorization :: "string option"
  req_body :: flash_body

text \<open>A string field's value (the fields are read as strings only after validation).\<close>

fun str_of :: "jsval \<Rightarrow> string" where
  "str_of (JStr s) = s"
| "str_of v = []"

record flash_job =
  resolvedSketch :: string
  job_port :: string
  job_fqbn :: "string option"

text \<open>The validation part of the handler, up to and including \<^verbatim>\<open>fs.statSync\<close>.\<close>

definition flash_validate :: "'u env \<Rightarrow> flash_body \<Rightarrow> http_response + flash_job" where
  "flash_validate e b =
     (if \<not> truthy (sketchPath b) \<or> \<not> truthy (port b) then
        Inl (json_error 400 ''Missing sketchPath or port'')
      else if \<not> isValidSerialPort (port b) then
        Inl (json_error 400 ''Invalid serial port identifier'')
      else if \<not> isValidFqbn (fqbn b) then
        Inl (json_error 400 ''Invalid FQBN value'')
      else
        (case sanitizePath (sketchPath b) of
           None \<Rightarrow> Inl (json_error 400 ''Invalid sketch path'')
         | Some sanitizedPath \<Rightarrow>
             if sanitizedPath = [] then Inl (json_error 400 ''Invalid sketch path'')
             else
             (let resolved = posix_resolve (cwd e) [PROJECT_ROOT e, sanitizedPath]
              in if \<not> startsWith resolved (PROJECT_ROOT e) then
                   Inl (json_error 400 ''Sketch path must stay within project workspace'')
                 else if toLowerCase (posix_extname resolved) \<notin> ALLOWED_SKETCH_EXTENSIONS then
                   Inl (json_error 400 ''Unsupported sketch file extension'')
                 else
                   (case statSync e resolved of
                      None \<Rightarrow> Inl (json_error 400 ''Sketch file not found'')
                    | Some kind \<Rightarrow>
                        if kind \<noteq> RegularFile then
                          Inl (json_error 400 ''Sketch path must point to a file'')
                        else
                          Inr \<lparr>resolvedSketch = resolved, job_port = str_of (port b),
                               job_fqbn =
                                 (if truthy (fqbn b) then Some (str_of (fqbn b)) else None)\<rparr>))))"

text \<open>The liveness probe: \<^verbatim>\<open>arduino-cli version\<close>, settled by the first \<^verbatim>\<open>error\<close> or
  \<^verbatim>\<open>close\<close> event.\<close>

fun probe :: "proc_event list \<Rightarrow> bool option" where
  "probe [] = None"
| "probe (ErrorEvent err # evs) = Some False"
| "probe (Close code # evs) = Some (code = Some 0)"
| "probe (ev # evs) = probe evs"

definition fqbn_args :: "flash_job \<Rightarrow> string list" where
  "fqbn_args j = (case job_fqbn j of None \<Rightarrow> [] | Some f \<Rightarrow> [''--fqbn'', f])"

definition compileArgs :: "flash_job \<Rightarrow> string list" where
  "compileArgs j = [''compile'', resolvedSketch j] @ fqbn_args j"

definition uploadArgs :: "flash_job \<Rightarrow> string list" where
  "uploadArgs j = [''upload'', resolvedSketch j, ''--port'', job_port j] @ fqbn_args j"

definition failure_response :: "cli_error \<Rightarrow> http_response" where
  "failure_response err =
     json_error 500
       (if err_timedOut err = Some True
        then ''Flash operation timed out. Please verify the board connection.''
        else ''Failed to compile or upload sketch'')"

text \<open>
  The rest of the handler. The result is the response (\<open>None\<close> when a promise the handler
  awaits never settles, so no response is sent) and the argument vectors of the processes
  it spawned, in order.
\<close>

definition flash_run :: "'u env \<Rightarrow> flash_job \<Rightarrow> http_response option \<times> string list list" where
  "flash_run e j =
     (let h0 = [[''version'']]
      in (case probe (cli e [] [''version'']) of
            None \<Rightarrow> (None, h0)
          | Some False \<Rightarrow> (Some (json_error 500 ''arduino-cli not available on PATH''), h0)
          | Some True \<Rightarrow>
              (let h1 = h0 @ [compileArgs j]
               in (case spawnCliAndStream no_options (cli e h0 (compileArgs j)) of
                     Pending \<Rightarrow> (None, h1)
                   | Rejected err \<Rightarrow> (Some (failure_response err), h1)
                   | Resolved out1 \<Rightarrow>
                       (let h2 = h1 @ [uploadArgs j]
                        in (case spawnCliAndStream no_options (cli e h1 (uploadArgs j)) of
                              Pending \<Rightarrow> (None, h2)
                            | Rejected err \<Rightarrow> (Some (failure_response err), h2)
                            | Resolved out2 \<Rightarrow>
                                (Some \<lparr>status = 200, body = OkBody ''Upload complete''\<rparr>, h2)))))))"

definition flash_handler :: "'u env \<Rightarrow> flash_body \<Rightarrow> http_response option \<times> string list list" where
  "flash_handler e b =
     (case flash_validate e b of
        Inl response \<Rightarrow> (Some response, [])
      | Inr j \<Rightarrow> flash_run e j)"

text \<open>The route: \<^verbatim>\<open>authMiddleware\<close>, then the handler.\<close>

definition flash_route :: "'u env \<Rightarrow> flash_request \<Rightarrow> http_response option \<times> string list list" where
  "flash_route e req =
     (case authMiddleware (verifyToken e) (authorization req) of
        Inl response \<Rightarrow> (Some response, [])
      | Inr user \<Rightarrow> flash_handler e (req_body req))"

text \<open>Concrete surroundings for the runs below: the server lives in
  \<^verbatim>\<open>/srv/app/backend\<close>, every token is accepted as user \<open>()\<close>.\<close>

definition accept_all :: "string \<Rightarrow> unit option" where
  "accept_all token = Some ()"

definition reject_all :: "string \<Rightarrow> unit option" where
  "reject_all token = None"

definition demo_files :: "string \<Rightarrow> file_kind option" where
  "demo_files p =
     (if p = ''/srv/app/sketches/blink.ino'' then Some RegularFile
      else if p = ''/srv/app-evil/x.ino'' then Some RegularFile
      else if p = ''/srv/app/sketches'' then Some Directory
      else None)"

definition compile_fails :: "string list list \<Rightarrow> string list \<Rightarrow> proc_event list" where
  "compile_fails history args =
     (if args = [''version''] then [Data ''arduino-cli 0.35'', Close (Some 0)]
      else if hd args = ''compile'' then [Data ''error: expected ;'', Close (Some 1)]
      else [Data ''done'', Close (Some 0)])"

definition all_succeed :: "string list list \<Rightarrow> string list \<Rightarrow> proc_event list" where
  "all_succeed history args = [Data ''ok'', Close (Some 0)]"

definition demo_env :: "(string list list \<Rightarrow> string list \<Rightarrow> proc_event list) \<Rightarrow> unit env" where
  "demo_env tool = \<lparr>dirname = ''/srv/app/backend'', cwd = ''/srv/app/backend'',
                     statSync = demo_files, verifyToken = accept_all, cli = tool\<rparr>"

section \<open>Notions and concrete inputs used in the statements\<close>

text \<open>The chunks written by the child, in order, among the events delivered.\<close>

fun chunks_of :: "proc_event list \<Rightarrow> string list" where
  "chunks_of [] = []"
| "chunks_of (Data chunk # evs) = chunk # chunks_of evs"
| "chunks_of (ev # evs) = chunks_of evs"

text \<open>The text decoded so far from those chunks, each chunk decoded on its own.\<close>

definition decoded :: "proc_event list \<Rightarrow> nat list" where
  "decoded evs = concat (map toString (chunks_of evs))"

text \<open>A cap of four code units, and the eight bytes that encode the character U+00E9
  four times.\<close>

definition cap4 :: spawn_options where
  "cap4 = \<lparr>timeoutMs = None, maxBuffer = Some 4\<rparr>"

definition four_e_acute :: string where
  "four_e_acute = [CHR 0xC3, CHR 0xA9, CHR 0xC3, CHR 0xA9, CHR 0xC3, CHR 0xA9, CHR 0xC3, CHR 0xA9]"

text \<open>The events that settle the promise.\<close>

fun settles :: "proc_event \<Rightarrow> bool" where
  "settles (ErrorEvent err) = True"
| "settles (Close code) = True"
| "settles ev = False"

text \<open>
  The board-identifier constraint as the specification words it: at most 120 characters,
  each a word character, a colon, a dot or a hyphen.
\<close>

definition spec_fqbn_ok :: "string \<Rightarrow> bool" where
  "spec_fqbn_ok s = (length s \<le> 120 \<and> list_all (\<lambda>c. is_word_char c \<or> c \<in> set '':.-'') s)"

definition short_fqbn_request :: flash_request where
  "short_fqbn_request =
     \<lparr>authorization = Some ''Bearer t0k3n'',
      req_body = \<lparr>sketchPath = JStr ''sketches/blink.ino'', port = JStr ''/dev/ttyUSB0'',
                  fqbn = JStr ''ab''\<rparr>\<rparr>"

definition dotted_name_request :: flash_request where
  "dotted_name_request =
     \<lparr>authorization = Some ''Bearer t0k3n'',
      req_body = \<lparr>sketchPath = JStr ''my..sketch.ino'', port = JStr ''/dev/ttyUSB0'',
                  fqbn = JUndefined\<rparr>\<rparr>"

definition empty_path_request :: flash_request where
  "empty_path_request =
     \<lparr>authorization = Some ''Bearer t0k3n'',
      req_body = \<lparr>sketchPath = JStr [], port = JStr ''/dev/ttyUSB0'', fqbn = JUndefined\<rparr>\<rparr>"

definition blink_request :: flash_request where
  "blink_request =
     \<lparr>authorization = Some ''Bearer t0k3n'',
      req_body = \<lparr>sketchPath = JStr ''sketches/blink.ino'', port = JStr ''/dev/ttyUSB0'',
                  fqbn = JStr ''esp32:esp32:esp32''\<rparr>\<rparr>"

definition blink_job :: flash_job where
  "blink_job = \<lparr>resolvedSketch = ''/srv/app/sketches/blink.ino'', job_port = ''/dev/ttyUSB0'',
                 job_fqbn = Some ''esp32:esp32:esp32''\<rparr>"

text \<open>
  A path lies inside a directory when it is that directory or continues it after a slash.
\<close>

definition within_directory :: "string \<Rightarrow> string \<Rightarrow> bool" where
  "within_directory dir p = (p = dir \<or> startsWith p (dir @ ''/''))"

definition sibling_request :: flash_request where
  "sibling_request =
     \<lparr>authorization = Some ''Bearer t0k3n'',
      req_body = \<lparr>sketchPath = JStr ''/srv/app-evil/x.ino'', port = JStr ''/dev/ttyUSB0'',
                  fqbn = JUndefined\<rparr>\<rparr>"

definition traversal_body :: flash_body where
  "traversal_body = \<lparr>sketchPath = JStr ''../../etc/passwd'', port = JStr ''/dev/ttyUSB0'',
                      fqbn = JUndefined\<rparr>"

section \<open>Properties of the sliding-window counter\<close>

lemma ceil_seconds_div: "ceil_seconds ms = - ((- ms) div 1000)"
proof -
  have "\<lceil>(of_int ms :: rat) / of_int 1000\<rceil> = - ((- ms) div 1000)"
    by (rule ceiling_divide_eq_div)
  then show ?thesis by (simp add: ceil_seconds_def)
qed

lemma rateLimit_calls_append:
  "rateLimit_calls key (xs @ ys) store =
     (case rateLimit_calls key xs store of
        (rs, s) \<Rightarrow> (case rateLimit_calls key ys s of (rs', s') \<Rightarrow> (rs @ rs', s')))"
  by (induction xs arbitrary: store) (auto split: prod.splits)

lemma rateLimit_fresh:
  assumes "store key = None \<or> (\<exists>r. store key = Some r \<and> now - windowStart r > RATE_LIMIT_WINDOW_MS)"
  shows "rateLimit now key store =
           (allow (int RATE_LIMIT_MAX_REQUESTS - 1), store(key \<mapsto> \<lparr>windowStart = now, count = 1\<rparr>))"
  using assms by (auto simp: rateLimit_def allow_def)

lemma rateLimit_live:
  assumes "store key = Some \<lparr>windowStart = t0, count = c\<rparr>"
    and "now - t0 \<le> RATE_LIMIT_WINDOW_MS" and "c < RATE_LIMIT_MAX_REQUESTS"
  shows "rateLimit now key store =
           (allow (int RATE_LIMIT_MAX_REQUESTS - int (Suc c)),
            store(key \<mapsto> \<lparr>windowStart = t0, count = Suc c\<rparr>))"
  using assms by (simp add: rateLimit_def allow_def)

lemma rateLimit_full:
  assumes "store key = Some \<lparr>windowStart = t0, count = c\<rparr>"
    and "now - t0 \<le> RATE_LIMIT_WINDOW_MS" and "RATE_LIMIT_MAX_REQUESTS \<le> c"
  shows "rateLimit now key store =
           (deny (ceil_seconds (RATE_LIMIT_WINDOW_MS - (now - t0))), store)"
  using assms by (simp add: rateLimit_def deny_def)

lemma rateLimit_calls_live:
  assumes "store key = Some \<lparr>windowStart = t0, count = c\<rparr>"
    and "\<forall>t\<in>set ts. t - t0 \<le> RATE_LIMIT_WINDOW_MS"
    and "c + length ts \<le> RATE_LIMIT_MAX_REQUESTS"
  shows "rateLimit_calls key ts store =
           (map (\<lambda>i. allow (int RATE_LIMIT_MAX_REQUESTS - int i)) [Suc c..<Suc (c + length ts)],
            store(key \<mapsto> \<lparr>windowStart = t0, count = c + length ts\<rparr>))"
  using assms
proof (induction ts arbitrary: c store)
  case Nil
  then show ?case by (auto simp: fun_eq_iff)
next
  case (Cons t ts)
  have step: "rateLimit t key store =
      (allow (int RATE_LIMIT_MAX_REQUESTS - int (Suc c)),
       store(key \<mapsto> \<lparr>windowStart = t0, count = Suc c\<rparr>))"
    using Cons.prems by (intro rateLimit_live) auto
  let ?s = "store(key \<mapsto> \<lparr>windowStart = t0, count = Suc c\<rparr>)"
  have rest: "rateLimit_calls key ts ?s =
      (map (\<lambda>i. allow (int RATE_LIMIT_MAX_REQUESTS - int i)) [Suc (Suc c)..<Suc (Suc c + length ts)],
       ?s(key \<mapsto> \<lparr>windowStart = t0, count = Suc c + length ts\<rparr>))"
    using Cons.prems by (intro Cons.IH) auto
  have upt: "[Suc c..<Suc (c + length (t # ts))] = Suc c # [Suc (Suc c)..<Suc (Suc c + length ts)]"
    by (simp add: upt_rec)
  show ?case
    unfolding upt by (simp add: step rest fun_eq_iff)
qed

lemma rateLimit_calls_fresh:
  assumes "store key = None \<or> (\<exists>r. store key = Some r \<and> t0 - windowStart r > RATE_LIMIT_WINDOW_MS)"
    and "\<forall>t\<in>set ts. t - t0 \<le> RATE_LIMIT_WINDOW_MS"
    and "Suc (length ts) \<le> RATE_LIMIT_MAX_REQUESTS"
  shows "rateLimit_calls key (t0 # ts) store =
           (map (\<lambda>i. allow (int RATE_LIMIT_MAX_REQUESTS - int i)) [Suc 0..<Suc (Suc (length ts))],
            store(key \<mapsto> \<lparr>windowStart = t0, count = Suc (length ts)\<rparr>))"
proof -
  let ?s = "store(key \<mapsto> \<lparr>windowStart = t0, count = Suc 0\<rparr>)"
  have first: "rateLimit t0 key store = (allow (int RATE_LIMIT_MAX_REQUESTS - int (Suc 0)), ?s)"
    using rateLimit_fresh [of store key t0] assms(1) by simp
  have rest: "rateLimit_calls key ts ?s =
      (map (\<lambda>i. allow (int RATE_LIMIT_MAX_REQUESTS - int i)) [Suc (Suc 0)..<Suc (Suc 0 + length ts)],
       ?s(key \<mapsto> \<lparr>windowStart = t0, count = Suc 0 + length ts\<rparr>))"
    using assms(2,3) by (intro rateLimit_calls_live) auto
  have upt: "[Suc 0..<Suc (Suc (length ts))] = Suc 0 # [Suc (Suc 0)..<Suc (Suc 0 + length ts)]"
    by (simp add: upt_rec)
  show ?thesis
    unfolding upt rateLimit_calls.simps first prod.case rest by simp
qed

lemma ceil_seconds_pos: "0 < ms \<Longrightarrow> 0 < ceil_seconds ms"
  by (simp add: ceil_seconds_div)

lemma ceil_seconds_bounds: "1000 * (ceil_seconds ms - 1) < ms \<and> ms \<le> 1000 * ceil_seconds ms"
proof -
  let ?x = "(of_int ms :: rat) / 1000"
  have "of_int (ceil_seconds ms) - 1 < ?x \<and> ?x \<le> of_int (ceil_seconds ms)"
    unfolding ceil_seconds_def by (rule ceiling_correct)
  then have "(of_int (1000 * (ceil_seconds ms - 1)) :: rat) < of_int ms
      \<and> (of_int ms :: rat) \<le> of_int (1000 * ceil_seconds ms)"
    by (simp add: field_simps)
  then show ?thesis
    by (simp only: of_int_less_iff of_int_le_iff)
qed

lemma rateLimit_calls_then_full:
  assumes "store key = None"
    and "length ts = RATE_LIMIT_MAX_REQUESTS - 1"
    and "\<forall>t\<in>set (ts @ [t']). t - t0 \<le> RATE_LIMIT_WINDOW_MS"
  shows "fst (rateLimit_calls key (t0 # ts @ [t']) store) =
      map (\<lambda>i. allow (int RATE_LIMIT_MAX_REQUESTS - int i)) [Suc 0..<Suc RATE_LIMIT_MAX_REQUESTS]
      @ [deny (ceil_seconds (RATE_LIMIT_WINDOW_MS - (t' - t0)))]"
proof -
  let ?left = "RATE_LIMIT_WINDOW_MS - (t' - t0)"
  have len: "Suc (length ts) = RATE_LIMIT_MAX_REQUESTS"
    using assms(2) by (simp add: RATE_LIMIT_MAX_REQUESTS_def)
  have within: "\<forall>t\<in>set ts. t - t0 \<le> RATE_LIMIT_WINDOW_MS"
    using assms(3) by auto
  let ?s = "store(key \<mapsto> \<lparr>windowStart = t0, count = Suc (length ts)\<rparr>)"
  have firsts: "rateLimit_calls key (t0 # ts) store =
      (map (\<lambda>i. allow (int RATE_LIMIT_MAX_REQUESTS - int i)) [Suc 0..<Suc (Suc (length ts))], ?s)"
    using assms(1) within len by (intro rateLimit_calls_fresh) auto
  have last: "rateLimit t' key ?s = (deny (ceil_seconds ?left), ?s)"
    using assms(3) len by (intro rateLimit_full) auto
  have "rateLimit_calls key ((t0 # ts) @ [t']) store =
      (map (\<lambda>i. allow (int RATE_LIMIT_MAX_REQUESTS - int i)) [Suc 0..<Suc (Suc (length ts))]
         @ [deny (ceil_seconds ?left)], ?s)"
    unfolding rateLimit_calls_append firsts by (simp add: last)
  then show ?thesis
    using len by simp
qed

text \<open>
  Where claim C5 fails: the eleventh call arrives exactly \<open>RATE_LIMIT_WINDOW_MS\<close> after the
  first. The record is still live (the test is \<open>>\<close>), so the call belongs to the same
  window and is denied, with \<open>retryAfter = 0\<close>.
\<close>

theorem rateLimit_retry_zero_counterexample:
  "fst (rateLimit_calls ''login:10.0.0.7''
         [0, 1000, 2000, 3000, 4000, 5000, 6000, 7000, 8000, 9000, 900000] no_rate_records) =
     [allow 9, allow 8, allow 7, allow 6, allow 5, allow 4, allow 3, allow 2, allow 1, allow 0,
      deny 0]"
proof -
  have "fst (rateLimit_calls ''login:10.0.0.7''
         (0 # [1000, 2000, 3000, 4000, 5000, 6000, 7000, 8000, 9000] @ [900000]) no_rate_records) =
      map (\<lambda>i. allow (int RATE_LIMIT_MAX_REQUESTS - int i)) [Suc 0..<Suc RATE_LIMIT_MAX_REQUESTS]
      @ [deny (ceil_seconds (RATE_LIMIT_WINDOW_MS - (900000 - 0)))]"
    by (rule rateLimit_calls_then_full)
      (simp_all add: no_rate_records_def RATE_LIMIT_MAX_REQUESTS_def RATE_LIMIT_WINDOW_MS_def)
  then show ?thesis
    by (simp add: RATE_LIMIT_MAX_REQUESTS_def RATE_LIMIT_WINDOW_MS_def ceil_seconds_div upt_rec
        del: rateLimit_calls.simps)
qed

text \<open>
  Claim C5, amended. Starting from no stored record for a key, \<open>RATE_LIMIT_MAX_REQUESTS\<close>
  (10) consecutive calls inside one window (every later call at most
  \<open>RATE_LIMIT_WINDOW_MS\<close> after the first) are all allowed, the \<open>k\<close>-th reporting
  \<open>remaining = MAX - k\<close>; the next call in the same window is denied with
  \<open>retryAfter = ceil((WINDOW_MS - elapsed) / 1000)\<close>, the least number of whole seconds that
  covers the rest of the window. It is strictly positive when \<open>elapsed < WINDOW_MS\<close> and 0
  when \<open>elapsed = WINDOW_MS\<close>.
\<close>

theorem rateLimit_max_then_deny:
  assumes "store key = None"
    and "length ts = RATE_LIMIT_MAX_REQUESTS - 1"
    and "\<forall>t\<in>set (ts @ [t']). t - t0 \<le> RATE_LIMIT_WINDOW_MS"
  shows "fst (rateLimit_calls key (t0 # ts @ [t']) store) =
           map (\<lambda>k. \<lparr>allowed = True, remaining = Some (int RATE_LIMIT_MAX_REQUESTS - int k),
                       retryAfter = None\<rparr>) [Suc 0..<Suc RATE_LIMIT_MAX_REQUESTS]
           @ [\<lparr>allowed = False, remaining = None,
               retryAfter = Some \<lceil>(of_int (RATE_LIMIT_WINDOW_MS - (t' - t0)) :: rat) / 1000\<rceil>\<rparr>]
         \<and> 1000 * (\<lceil>(of_int (RATE_LIMIT_WINDOW_MS - (t' - t0)) :: rat) / 1000\<rceil> - 1)
               < RATE_LIMIT_WINDOW_MS - (t' - t0)
         \<and> RATE_LIMIT_WINDOW_MS - (t' - t0)
               \<le> 1000 * \<lceil>(of_int (RATE_LIMIT_WINDOW_MS - (t' - t0)) :: rat) / 1000\<rceil>
         \<and> (t' - t0 < RATE_LIMIT_WINDOW_MS \<longrightarrow>
               0 < \<lceil>(of_int (RATE_LIMIT_WINDOW_MS - (t' - t0)) :: rat) / 1000\<rceil>)
         \<and> (t' - t0 = RATE_LIMIT_WINDOW_MS \<longrightarrow>
               \<lceil>(of_int (RATE_LIMIT_WINDOW_MS - (t' - t0)) :: rat) / 1000\<rceil> = 0)"
proof -
  let ?left = "RATE_LIMIT_WINDOW_MS - (t' - t0)"
  let ?r = "\<lceil>(of_int ?left :: rat) / 1000\<rceil>"
  have r: "?r = ceil_seconds ?left"
    by (simp only: ceil_seconds_def)
  have "fst (rateLimit_calls key (t0 # ts @ [t']) store) =
      map (\<lambda>i. allow (int RATE_LIMIT_MAX_REQUESTS - int i)) [Suc 0..<Suc RATE_LIMIT_MAX_REQUESTS]
      @ [deny (ceil_seconds ?left)]"
    using assms by (rule rateLimit_calls_then_full)
  then have results: "fst (rateLimit_calls key (t0 # ts @ [t']) store) =
      map (\<lambda>k. \<lparr>allowed = True, remaining = Some (int RATE_LIMIT_MAX_REQUESTS - int k),
                  retryAfter = None\<rparr>) [Suc 0..<Suc RATE_LIMIT_MAX_REQUESTS]
      @ [\<lparr>allowed = False, remaining = None, retryAfter = Some ?r\<rparr>]"
    by (simp only: allow_def deny_def ceil_seconds_def)
  have lower: "1000 * (?r - 1) < ?left" and upper: "?left \<le> 1000 * ?r"
    unfolding r using ceil_seconds_bounds [of ?left] by blast+
  have pos: "0 < ?r" if "t' - t0 < RATE_LIMIT_WINDOW_MS"
    unfolding r using that by (intro ceil_seconds_pos) simp
  have zero: "?r = 0" if "t' - t0 = RATE_LIMIT_WINDOW_MS"
    unfolding r using that by (simp add: ceil_seconds_div)
  show ?thesis
    using results lower upper pos zero by blast
qed

theorem rateLimit_max_then_deny_witness:
  "fst (rateLimit_calls ''login:10.0.0.7'' (0 # [1000, 2000, 3000, 4000, 5000, 6000, 7000, 8000, 9000] @ [897500])
         no_rate_records) =
     [allow 9, allow 8, allow 7, allow 6, allow 5, allow 4, allow 3, allow 2, allow 1, allow 0, deny 3]"
proof -
  have "\<lceil>(of_int (RATE_LIMIT_WINDOW_MS - (897500 - 0)) :: rat) / 1000\<rceil> =
      ceil_seconds (RATE_LIMIT_WINDOW_MS - (897500 - 0))"
    by (simp only: ceil_seconds_def)
  then have ceil: "\<lceil>(of_int (RATE_LIMIT_WINDOW_MS - (897500 - 0)) :: rat) / 1000\<rceil> = 3"
    by (simp add: ceil_seconds_div RATE_LIMIT_WINDOW_MS_def)
  have "fst (rateLimit_calls ''login:10.0.0.7'' (0 # [1000, 2000, 3000, 4000, 5000, 6000, 7000, 8000, 9000] @ [897500])
         no_rate_records) =
           map (\<lambda>k. \<lparr>allowed = True, remaining = Some (int RATE_LIMIT_MAX_REQUESTS - int k),
                       retryAfter = None\<rparr>) [Suc 0..<Suc RATE_LIMIT_MAX_REQUESTS]
           @ [\<lparr>allowed = False, remaining = None,
               retryAfter = Some \<lceil>(of_int (RATE_LIMIT_WINDOW_MS - (897500 - 0)) :: rat) / 1000\<rceil>\<rparr>]"
    using rateLimit_max_then_deny
      [of no_rate_records "''login:10.0.0.7''"
        "[1000, 2000, 3000, 4000, 5000, 6000, 7000, 8000, 9000]" 897500 0]
    by (simp add: no_rate_records_def RATE_LIMIT_MAX_REQUESTS_def RATE_LIMIT_WINDOW_MS_def
        del: rateLimit_calls.simps)
  then show ?thesis
    unfolding ceil
    by (simp add: RATE_LIMIT_MAX_REQUESTS_def allow_def deny_def upt_rec
        del: rateLimit_calls.simps)
qed

text \<open>
  The boundary case of claim C6: a record whose window started exactly
  \<open>RATE_LIMIT_WINDOW_MS\<close> ago is not expired. The call is denied, with \<open>retryAfter = 0\<close>,
  and the record stays as it was.
\<close>

theorem rateLimit_boundary_counterexample:
  "fst (rateLimit 900000 ''login:10.0.0.7'' full_window_store) = deny 0
   \<and> snd (rateLimit 900000 ''login:10.0.0.7'' full_window_store) ''login:10.0.0.7''
       = Some \<lparr>windowStart = 0, count = 10\<rparr>"
  by (simp add: rateLimit_def full_window_store_def deny_def RATE_LIMIT_WINDOW_MS_def
      RATE_LIMIT_MAX_REQUESTS_def ceil_seconds_div)

text \<open>
  Claim C6, amended. A lookup made when more than \<open>RATE_LIMIT_WINDOW_MS\<close> have elapsed since
  the record's \<open>windowStart\<close> (strictly more: the test is \<open>>\<close>) replaces the record by a
  fresh one with \<open>count = 1\<close> and allows the call; that call and the next \<open>MAX - 1\<close>
  calls of the new window are all allowed.
\<close>

theorem rateLimit_expired_resets:
  assumes "store key = Some r"
    and "now - windowStart r > RATE_LIMIT_WINDOW_MS"
    and "length ts = RATE_LIMIT_MAX_REQUESTS - 1"
    and "\<forall>t\<in>set ts. t - now \<le> RATE_LIMIT_WINDOW_MS"
  shows "fst (rateLimit now key store) = allow (int RATE_LIMIT_MAX_REQUESTS - 1)
         \<and> snd (rateLimit now key store) key = Some \<lparr>windowStart = now, count = 1\<rparr>
         \<and> fst (rateLimit_calls key (now # ts) store) =
             map (\<lambda>k. allow (int RATE_LIMIT_MAX_REQUESTS - int k)) [Suc 0..<Suc RATE_LIMIT_MAX_REQUESTS]"
proof -
  have expired: "store key = None \<or> (\<exists>r. store key = Some r \<and> now - windowStart r > RATE_LIMIT_WINDOW_MS)"
    using assms(1,2) by simp
  have len: "Suc (length ts) = RATE_LIMIT_MAX_REQUESTS"
    using assms(3) by (simp add: RATE_LIMIT_MAX_REQUESTS_def)
  have "rateLimit_calls key (now # ts) store =
      (map (\<lambda>i. allow (int RATE_LIMIT_MAX_REQUESTS - int i)) [Suc 0..<Suc (Suc (length ts))],
       store(key \<mapsto> \<lparr>windowStart = now, count = Suc (length ts)\<rparr>))"
    using expired assms(4) len by (intro rateLimit_calls_fresh) auto
  then have "fst (rateLimit_calls key (now # ts) store) =
      map (\<lambda>k. allow (int RATE_LIMIT_MAX_REQUESTS - int k)) [Suc 0..<Suc RATE_LIMIT_MAX_REQUESTS]"
    using len by simp
  moreover have "rateLimit now key store =
      (allow (int RATE_LIMIT_MAX_REQUESTS - 1), store(key \<mapsto> \<lparr>windowStart = now, count = 1\<rparr>))"
    using rateLimit_fresh [of store key now] expired by simp
  ultimately show ?thesis by simp
qed

theorem rateLimit_expired_resets_witness:
  "fst (rateLimit 900001 ''login:10.0.0.7'' full_window_store) = allow 9
   \<and> fst (rateLimit_calls ''login:10.0.0.7''
        (900001 # [900002, 900003, 900004, 900005, 900006, 900007, 900008, 900009, 1800001])
        full_window_store) =
     [allow 9, allow 8, allow 7, allow 6, allow 5, allow 4, allow 3, allow 2, allow 1, allow 0]"
proof -
  have "fst (rateLimit 900001 ''login:10.0.0.7'' full_window_store) =
           allow (int RATE_LIMIT_MAX_REQUESTS - 1)
         \<and> snd (rateLimit 900001 ''login:10.0.0.7'' full_window_store) ''login:10.0.0.7'' =
           Some \<lparr>windowStart = 900001, count = 1\<rparr>
         \<and> fst (rateLimit_calls ''login:10.0.0.7''
              (900001 # [900002, 900003, 900004, 900005, 900006, 900007, 900008, 900009, 1800001])
              full_window_store) =
             map (\<lambda>k. allow (int RATE_LIMIT_MAX_REQUESTS - int k)) [Suc 0..<Suc RATE_LIMIT_MAX_REQUESTS]"
    by (rule rateLimit_expired_resets [where r = "\<lparr>windowStart = 0, count = 10\<rparr>"])
      (simp_all add: full_window_store_def RATE_LIMIT_MAX_REQUESTS_def RATE_LIMIT_WINDOW_MS_def)
  then show ?thesis
    by (simp add: RATE_LIMIT_MAX_REQUESTS_def upt_rec del: rateLimit_calls.simps)
qed

section \<open>Properties of the credential failure throttle\<close>

lemma recordCredentialFailures_live:
  assumes "key \<noteq> []" and "store key = Some r"
    and "\<forall>t\<in>set ts. t - firstFailure r \<le> CREDENTIAL_WINDOW_MS"
  shows "recordCredentialFailures key ts store key =
           Some \<lparr>failures = failures r + length ts, firstFailure = firstFailure r\<rparr>"
  using assms
proof (induction ts arbitrary: store r)
  case Nil
  then show ?case by simp
next
  case (Cons t ts)
  let ?r = "r\<lparr>failures := failures r + 1\<rparr>"
  have step: "recordCredentialFailure t key store = store(key \<mapsto> ?r)"
    using Cons.prems by (simp add: recordCredentialFailure_def)
  have "recordCredentialFailures key ts (store(key \<mapsto> ?r)) key =
      Some \<lparr>failures = failures ?r + length ts, firstFailure = firstFailure ?r\<rparr>"
    using Cons.prems by (intro Cons.IH) auto
  then show ?case by (simp add: step)
qed

lemma recordCredentialFailures_count:
  assumes "key \<noteq> []"
    and "\<forall>t\<in>set ts. t - credential_window_start t0 key store \<le> CREDENTIAL_WINDOW_MS"
  shows "\<exists>n. recordCredentialFailures key (t0 # ts) store key =
           Some \<lparr>failures = Suc n + length ts, firstFailure = credential_window_start t0 key store\<rparr>"
proof -
  let ?w = "credential_window_start t0 key store"
  have "\<exists>r. recordCredentialFailure t0 key store key = Some r \<and> firstFailure r = ?w
      \<and> 0 < failures r"
    using assms(1)
    by (cases "store key") (auto simp: recordCredentialFailure_def credential_window_start_def)
  then obtain r where first: "recordCredentialFailure t0 key store key = Some r"
    and w: "firstFailure r = ?w" and pos: "0 < failures r"
    by blast
  have "recordCredentialFailures key ts (recordCredentialFailure t0 key store) key =
      Some \<lparr>failures = failures r + length ts, firstFailure = firstFailure r\<rparr>"
    using assms first w by (intro recordCredentialFailures_live) auto
  moreover obtain n where "failures r = Suc n"
    using pos by (cases "failures r") auto
  ultimately show ?thesis using w by auto
qed

text \<open>
  Where claim C7 fails: five failures of one identity inside the window, then a status
  query that arrives after the window has run out (600001 ms after the first failure).
  The query finds the record expired, deletes it and reports \<open>blocked = False\<close>.
\<close>

theorem credential_late_query_counterexample:
  "fst (getCredentialThrottle 600001 ''a@b.com''
          (recordCredentialFailures ''a@b.com'' [0, 1000, 2000, 3000, 4000] no_credential_records))
     = \<lparr>blocked = False, throttle_retryAfter = None\<rparr>
   \<and> snd (getCredentialThrottle 600001 ''a@b.com''
          (recordCredentialFailures ''a@b.com'' [0, 1000, 2000, 3000, 4000] no_credential_records))
        ''a@b.com'' = None"
  by (simp add: getCredentialThrottle_def recordCredentialFailure_def no_credential_records_def
      CREDENTIAL_WINDOW_MS_def CREDENTIAL_MAX_FAILURES_def)

text \<open>
  Claim C7, amended. An identity is a normalized e-mail address that has passed the
  route's checks, so it is not empty. Five consecutive failures of one identity, all inside
  the window they are counted in, make a status query inside that window report
  \<open>blocked = True\<close> with \<open>retryAfter = ceil((WINDOW_MS - elapsed) / 1000)\<close>; a status query
  that comes after the window has run out (\<open>tlate\<close>) reports \<open>blocked = False\<close>. One
  \<^verbatim>\<open>resetCredentialFailures\<close> call deletes the record, and a status query at any later
  clock reading \<open>tq'\<close> reports \<open>blocked = False\<close>.
\<close>

theorem credential_throttle_blocks_until_reset:
  assumes "key \<noteq> []"
    and "length ts = CREDENTIAL_MAX_FAILURES - 1"
    and "\<forall>t\<in>set (ts @ [tq]). t - credential_window_start t0 key store \<le> CREDENTIAL_WINDOW_MS"
    and "tlate - credential_window_start t0 key store > CREDENTIAL_WINDOW_MS"
  shows "fst (getCredentialThrottle tq key (recordCredentialFailures key (t0 # ts) store)) =
           \<lparr>blocked = True,
            throttle_retryAfter = Some
              \<lceil>(of_int (CREDENTIAL_WINDOW_MS - (tq - credential_window_start t0 key store)) :: rat)
                 / 1000\<rceil>\<rparr>
         \<and> fst (getCredentialThrottle tlate key (recordCredentialFailures key (t0 # ts) store)) =
             \<lparr>blocked = False, throttle_retryAfter = None\<rparr>
         \<and> resetCredentialFailures key (recordCredentialFailures key (t0 # ts) store) key = None
         \<and> fst (getCredentialThrottle tq' key
                (resetCredentialFailures key (recordCredentialFailures key (t0 # ts) store))) =
             \<lparr>blocked = False, throttle_retryAfter = None\<rparr>"
proof -
  let ?w = "credential_window_start t0 key store"
  let ?s = "recordCredentialFailures key (t0 # ts) store"
  have "\<forall>t\<in>set ts. t - ?w \<le> CREDENTIAL_WINDOW_MS"
    using assms(3) by simp
  then obtain n where rec: "?s key = Some \<lparr>failures = Suc n + length ts, firstFailure = ?w\<rparr>"
    using recordCredentialFailures_count [OF assms(1)] by blast
  have enough: "CREDENTIAL_MAX_FAILURES \<le> Suc n + length ts"
    using assms(2) by (simp add: CREDENTIAL_MAX_FAILURES_def)
  have live: "\<not> tq - ?w > CREDENTIAL_WINDOW_MS"
    using assms(3) by simp
  have "fst (getCredentialThrottle tq key ?s) =
      \<lparr>blocked = True,
       throttle_retryAfter = Some (ceil_seconds (CREDENTIAL_WINDOW_MS - (tq - ?w)))\<rparr>"
    using assms(1) rec enough live by (simp add: getCredentialThrottle_def)
  then have blocked: "fst (getCredentialThrottle tq key ?s) =
      \<lparr>blocked = True,
       throttle_retryAfter = Some \<lceil>(of_int (CREDENTIAL_WINDOW_MS - (tq - ?w)) :: rat) / 1000\<rceil>\<rparr>"
    by (simp only: ceil_seconds_def)
  have late: "fst (getCredentialThrottle tlate key ?s) = \<lparr>blocked = False, throttle_retryAfter = None\<rparr>"
    using assms(1,4) rec by (simp add: getCredentialThrottle_def)
  have gone: "resetCredentialFailures key ?s key = None"
    by (simp add: resetCredentialFailures_def)
  then have "fst (getCredentialThrottle tq' key (resetCredentialFailures key ?s)) =
      \<lparr>blocked = False, throttle_retryAfter = None\<rparr>"
    by (simp add: getCredentialThrottle_def)
  with blocked late gone show ?thesis by blast
qed

theorem credential_throttle_blocks_until_reset_witness:
  "fst (getCredentialThrottle 5000 ''a@b.com''
          (recordCredentialFailures ''a@b.com'' (0 # [1000, 2000, 3000, 4000]) no_credential_records)) =
     \<lparr>blocked = True, throttle_retryAfter = Some 595\<rparr>
   \<and> fst (getCredentialThrottle 5001 ''a@b.com''
          (resetCredentialFailures ''a@b.com''
            (recordCredentialFailures ''a@b.com'' (0 # [1000, 2000, 3000, 4000]) no_credential_records))) =
     \<lparr>blocked = False, throttle_retryAfter = None\<rparr>"
proof -
  have w: "credential_window_start 0 ''a@b.com'' no_credential_records = 0"
    by (simp add: credential_window_start_def no_credential_records_def)
  have "\<lceil>(of_int (CREDENTIAL_WINDOW_MS - (5000 - 0)) :: rat) / 1000\<rceil> =
      ceil_seconds (CREDENTIAL_WINDOW_MS - (5000 - 0))"
    by (simp only: ceil_seconds_def)
  then have ceil: "\<lceil>(of_int (CREDENTIAL_WINDOW_MS - (5000 - 0)) :: rat) / 1000\<rceil> = 595"
    by (simp add: ceil_seconds_div CREDENTIAL_WINDOW_MS_def)
  have "fst (getCredentialThrottle 5000 ''a@b.com''
          (recordCredentialFailures ''a@b.com'' (0 # [1000, 2000, 3000, 4000]) no_credential_records)) =
           \<lparr>blocked = True,
            throttle_retryAfter = Some
              \<lceil>(of_int (CREDENTIAL_WINDOW_MS -
                  (5000 - credential_window_start 0 ''a@b.com'' no_credential_records)) :: rat)
                 / 1000\<rceil>\<rparr>
         \<and> fst (getCredentialThrottle 700000 ''a@b.com''
              (recordCredentialFailures ''a@b.com'' (0 # [1000, 2000, 3000, 4000]) no_credential_records)) =
             \<lparr>blocked = False, throttle_retryAfter = None\<rparr>
         \<and> resetCredentialFailures ''a@b.com''
              (recordCredentialFailures ''a@b.com'' (0 # [1000, 2000, 3000, 4000]) no_credential_records)
              ''a@b.com'' = None
         \<and> fst (getCredentialThrottle 5001 ''a@b.com''
                (resetCredentialFailures ''a@b.com''
                  (recordCredentialFailures ''a@b.com'' (0 # [1000, 2000, 3000, 4000]) no_credential_records))) =
             \<lparr>blocked = False, throttle_retryAfter = None\<rparr>"
    by (rule credential_throttle_blocks_until_reset)
      (simp_all add: w CREDENTIAL_MAX_FAILURES_def CREDENTIAL_WINDOW_MS_def)
  then show ?thesis
    unfolding w ceil by blast
qed

section \<open>Properties of the process runner\<close>

lemma toString_ascii:
  "list_all (\<lambda>c. (of_char c :: nat) < 128) chunk \<Longrightarrow> toString chunk = map of_char chunk"
  by (induction chunk) (simp_all add: toString_def utf16_units_def utf8_first_def)

lemma decoded_ascii:
  "\<forall>chunk\<in>set (chunks_of evs). list_all (\<lambda>c. (of_char c :: nat) < 128) chunk \<Longrightarrow>
   decoded evs = map of_char (concat (chunks_of evs))"
  by (induction evs rule: chunks_of.induct) (simp_all add: decoded_def toString_ascii)

lemma appendChunk_tail:
  "appendChunk m (drop (length w - m) w) chunk =
     drop (length (w @ toString chunk) - m) (w @ toString chunk)"
  by (cases "length w \<le> m") (auto simp: appendChunk_def Let_def add.commute)

lemma outputBuf_foldl:
  assumes "outputBuf r = drop (length w - m) w"
  shows "outputBuf (foldl (runner_step m) r evs) =
           drop (length (w @ decoded evs) - m) (w @ decoded evs)"
  using assms
proof (induction evs arbitrary: r w)
  case Nil
  then show ?case by (simp add: decoded_def)
next
  case (Cons ev evs)
  show ?case
  proof (cases ev)
    case (Data chunk)
    have "outputBuf (runner_step m r ev) =
        drop (length (w @ toString chunk) - m) (w @ toString chunk)"
      using Cons.prems Data by (simp add: appendChunk_tail)
    from Cons.IH [OF this] show ?thesis using Data by (simp add: decoded_def)
  next
    case KillTimer
    have "outputBuf (runner_step m r ev) = drop (length w - m) w"
      using Cons.prems KillTimer by simp
    from Cons.IH [OF this] show ?thesis using KillTimer by (simp add: decoded_def)
  next
    case GraceTimer
    have "outputBuf (runner_step m r ev) = drop (length w - m) w"
      using Cons.prems GraceTimer by simp
    from Cons.IH [OF this] show ?thesis using GraceTimer by (simp add: decoded_def)
  next
    case (ErrorEvent err)
    have "outputBuf (runner_step m r ev) = drop (length w - m) w"
      using Cons.prems ErrorEvent by (simp add: on_error_def)
    from Cons.IH [OF this] show ?thesis using ErrorEvent by (simp add: decoded_def)
  next
    case (Close code)
    have "outputBuf (runner_step m r ev) = drop (length w - m) w"
      using Cons.prems Close by (simp add: on_close_def)
    from Cons.IH [OF this] show ?thesis using Close by (simp add: decoded_def)
  qed
qed

lemma outputBuf_run_events:
  "outputBuf (run_events options evs) =
     drop (length (decoded evs) - effective_maxBuffer options) (decoded evs)"
  using outputBuf_foldl [of runner_start "[]" "effective_maxBuffer options" evs]
  by (simp add: run_events_def runner_start_def)

text \<open>
  Where claim C4 fails. Under a cap of 4, a child that writes the 8 bytes of four
  two-byte characters has all of them retained: the buffer holds their 4 code units, so
  more than 4 bytes of what was written survive and the buffer is not the 4-byte tail.
  A chunk that is the lone byte \<^verbatim>\<open>0xE9\<close> is retained as U+FFFD, which is no part of what
  was written.
\<close>

theorem output_cap_counts_code_units_counterexample:
  "effective_maxBuffer cap4 = 4
   \<and> length four_e_acute = 8
   \<and> outputBuf (run_events cap4 [Data four_e_acute]) = [233, 233, 233, 233]
   \<and> toString four_e_acute = [233, 233, 233, 233]
   \<and> toString (drop (length four_e_acute - 4) four_e_acute) = [233, 233]
   \<and> outputBuf (run_events cap4 [Data [CHR 0xE9]]) = [65533]"
  by (simp add: cap4_def four_e_acute_def effective_maxBuffer_def run_events_def runner_start_def
      appendChunk_def toString_def utf16_units_def utf8_first_def is_cont_def)

text \<open>
  Claim C4, amended. After any number \<open>n\<close> of the delivered events, the retained buffer is
  at most \<open>maxBuffer\<close> code units long and is the tail of the text decoded so far (every
  chunk decoded on its own by \<^verbatim>\<open>toString\<close>), of length \<open>min total maxBuffer\<close>: only the
  oldest code units are dropped. The cap counts code units of decoded text, not bytes.
  When every byte written is ASCII the two coincide, and the buffer is the byte-exact tail
  of everything written.
\<close>

theorem output_is_bounded_tail:
  "length (outputBuf (run_events options (take n evs))) \<le> effective_maxBuffer options
   \<and> outputBuf (run_events options (take n evs)) =
       drop (length (decoded (take n evs)) - effective_maxBuffer options) (decoded (take n evs))
   \<and> length (outputBuf (run_events options (take n evs))) =
       min (length (decoded (take n evs))) (effective_maxBuffer options)
   \<and> ((\<forall>chunk\<in>set (chunks_of (take n evs)). list_all (\<lambda>c. (of_char c :: nat) < 128) chunk) \<longrightarrow>
       outputBuf (run_events options (take n evs)) =
         map of_char
           (drop (length (concat (chunks_of (take n evs))) - effective_maxBuffer options)
              (concat (chunks_of (take n evs)))))"
proof -
  have tail: "outputBuf (run_events options (take n evs)) =
      drop (length (decoded (take n evs)) - effective_maxBuffer options) (decoded (take n evs))"
    by (rule outputBuf_run_events)
  have ascii: "outputBuf (run_events options (take n evs)) =
         map of_char
           (drop (length (concat (chunks_of (take n evs))) - effective_maxBuffer options)
              (concat (chunks_of (take n evs))))"
    if "\<forall>chunk\<in>set (chunks_of (take n evs)). list_all (\<lambda>c. (of_char c :: nat) < 128) chunk"
    using decoded_ascii [OF that] tail by (simp add: drop_map)
  show ?thesis
    using tail ascii by (simp add: min_def)
qed

theorem output_is_bounded_tail_witness:
  "outputBuf (run_events cap4 (take 2 [Data ''abc'', Data ''defg'', Data ''h'', Close (Some 0)]))
     = map of_char ''defg''"
proof -
  have m: "effective_maxBuffer cap4 = 4"
    by (simp add: cap4_def effective_maxBuffer_def)
  have chunks: "chunks_of (take 2 [Data ''abc'', Data ''defg'', Data ''h'', Close (Some 0)])
      = [''abc'', ''defg'']"
    by (simp add: take_Suc_conv_app_nth numeral_2_eq_2)
  have ascii: "\<forall>chunk\<in>set (chunks_of (take 2 [Data ''abc'', Data ''defg'', Data ''h'', Close (Some 0)])).
      list_all (\<lambda>c. (of_char c :: nat) < 128) chunk"
    unfolding chunks by simp
  let ?evs = "take 2 [Data ''abc'', Data ''defg'', Data ''h'', Close (Some 0)]"
  have "(\<forall>chunk\<in>set (chunks_of ?evs). list_all (\<lambda>c. (of_char c :: nat) < 128) chunk) \<longrightarrow>
      outputBuf (run_events cap4 ?evs) =
        map of_char
          (drop (length (concat (chunks_of ?evs)) - effective_maxBuffer cap4)
             (concat (chunks_of ?evs)))"
    using output_is_bounded_tail
      [of cap4 2 "[Data ''abc'', Data ''defg'', Data ''h'', Close (Some 0)]"]
    by blast
  with ascii have "outputBuf (run_events cap4 ?evs) =
        map of_char
          (drop (length (concat (chunks_of ?evs)) - effective_maxBuffer cap4)
             (concat (chunks_of ?evs)))"
    by blast
  then show ?thesis
    unfolding m chunks by simp
qed

lemma settled_stays:
  "settled r \<noteq> Pending \<Longrightarrow> settled (foldl (runner_step m) r evs) = settled r"
proof (induction evs arbitrary: r)
  case Nil
  then show ?case by simp
next
  case (Cons ev evs)
  have "settled (runner_step m r ev) = settled r"
    using Cons.prems
    by (cases ev; cases "settled r") (auto simp: on_error_def on_close_def settle_def)
  with Cons show ?case by simp
qed

lemma pending_run:
  assumes "\<forall>ev\<in>set evs. \<not> settles ev"
    and "settled r = Pending" and "killTimerArmed r = (\<not> timedOut r)"
  shows "settled (foldl (runner_step m) r evs) = Pending
         \<and> timedOut (foldl (runner_step m) r evs) = (timedOut r \<or> KillTimer \<in> set evs)
         \<and> killTimerArmed (foldl (runner_step m) r evs) = (\<not> timedOut (foldl (runner_step m) r evs))"
  using assms
proof (induction evs arbitrary: r)
  case Nil
  then show ?case by simp
next
  case (Cons ev evs)
  have step: "settled (runner_step m r ev) = Pending
      \<and> timedOut (runner_step m r ev) = (timedOut r \<or> ev = KillTimer)
      \<and> killTimerArmed (runner_step m r ev) = (\<not> timedOut (runner_step m r ev))"
    using Cons.prems by (cases ev) auto
  have rest: "\<forall>ev\<in>set evs. \<not> settles ev"
    using Cons.prems by simp
  from Cons.IH [OF rest] step show ?case by auto
qed

lemma run_events_snoc:
  "run_events options (evs @ [ev]) =
     runner_step (effective_maxBuffer options) (run_events options evs) ev"
  by (simp add: run_events_def)

lemma run_events_pending:
  assumes "\<forall>ev\<in>set evs. \<not> settles ev"
  shows "settled (run_events options evs) = Pending
         \<and> timedOut (run_events options evs) = (KillTimer \<in> set evs)"
  using pending_run [OF assms, of runner_start "effective_maxBuffer options"]
  by (simp add: run_events_def runner_start_def)

text \<open>
  Where claim C3 fails: after the kill timer has fired, exits with code 1 and with code 2
  reject with one and the same error value, so the error does not carry the exit code. It
  has a message, \<open>timedOut\<close> and \<open>cliOutput\<close>, and no field for the code.
\<close>

theorem close_error_has_no_exit_code_counterexample:
  "spawnCliAndStream no_options [Data ''x'', KillTimer, Close (Some 1)] =
     Rejected \<lparr>message = ''arduino-cli timed out'', cause = None,
               err_timedOut = Some True, cliOutput = map of_char ''x''\<rparr>
   \<and> spawnCliAndStream no_options [Data ''x'', KillTimer, Close (Some 2)] =
     Rejected \<lparr>message = ''arduino-cli timed out'', cause = None,
               err_timedOut = Some True, cliOutput = map of_char ''x''\<rparr>"
  by (simp add: spawnCliAndStream_def run_events_def runner_start_def on_close_def settle_def
      appendChunk_def toString_ascii no_options_def effective_maxBuffer_def
      CLI_MAX_OUTPUT_BYTES_def)

text \<open>
  Claim C3, amended. When the child closes and no \<^verbatim>\<open>error\<close> or \<^verbatim>\<open>close\<close> event came before:
  if the kill timer has not fired and the exit code is 0, the promise resolves with the
  captured output; otherwise it rejects with an error whose \<open>timedOut\<close> says whether the
  timer fired and whose \<open>cliOutput\<close> is the captured output. The exit code is no field of
  the error: it appears in the message text, and only when the timer has not fired. Events
  delivered after the close leave the promise as it is.
\<close>

theorem close_settles_promise:
  assumes "\<forall>ev\<in>set evs. \<not> settles ev"
  shows "spawnCliAndStream options (evs @ [Close code] @ later) =
           (if KillTimer \<notin> set evs \<and> code = Some 0
            then Resolved (outputBuf (run_events options evs))
            else Rejected
              \<lparr>message = (if KillTimer \<in> set evs then ''arduino-cli timed out''
                           else ''arduino-cli exited with code '' @ show_code code),
               cause = None,
               err_timedOut = Some (KillTimer \<in> set evs),
               cliOutput = outputBuf (run_events options evs)\<rparr>)"
proof -
  let ?m = "effective_maxBuffer options"
  let ?r = "run_events options evs"
  have pend: "settled ?r = Pending" and tout: "timedOut ?r = (KillTimer \<in> set evs)"
    using run_events_pending [OF assms] by simp_all
  let ?c = "runner_step ?m ?r (Close code)"
  have closed: "settled ?c =
      (if KillTimer \<notin> set evs \<and> code = Some 0
       then Resolved (outputBuf ?r)
       else Rejected
         \<lparr>message = (if KillTimer \<in> set evs then ''arduino-cli timed out''
                      else ''arduino-cli exited with code '' @ show_code code),
          cause = None,
          err_timedOut = Some (KillTimer \<in> set evs),
          cliOutput = outputBuf ?r\<rparr>)"
    using pend tout by (simp add: on_close_def settle_def)
  then have "settled ?c \<noteq> Pending"
    by (simp split: if_splits)
  then have "settled (foldl (runner_step ?m) ?c later) = settled ?c"
    by (rule settled_stays)
  moreover have "run_events options (evs @ [Close code] @ later) = foldl (runner_step ?m) ?c later"
    by (simp add: run_events_def)
  ultimately show ?thesis
    using closed by (simp add: spawnCliAndStream_def)
qed

theorem close_settles_promise_witness:
  "spawnCliAndStream no_options ([Data ''Sketch uses 1024 bytes'', GraceTimer] @ [Close (Some 0)] @ [GraceTimer])
     = Resolved (map of_char ''Sketch uses 1024 bytes'')
   \<and> spawnCliAndStream no_options ([Data ''error: x''] @ [Close (Some 1)] @ [])
     = Rejected \<lparr>message = ''arduino-cli exited with code 1'', cause = None,
                 err_timedOut = Some False, cliOutput = map of_char ''error: x''\<rparr>"
proof -
  have a: "\<forall>ev\<in>set [Data ''Sketch uses 1024 bytes'', GraceTimer]. \<not> settles ev"
    by simp
  have b: "\<forall>ev\<in>set [Data ''error: x'']. \<not> settles ev"
    by simp
  have out: "outputBuf (run_events no_options [Data ''Sketch uses 1024 bytes'', GraceTimer])
               = map of_char ''Sketch uses 1024 bytes''"
       "outputBuf (run_events no_options [Data ''error: x'']) = map of_char ''error: x''"
    by (simp_all add: run_events_def runner_start_def appendChunk_def toString_ascii no_options_def
        effective_maxBuffer_def CLI_MAX_OUTPUT_BYTES_def)
  have code1: "show_code (Some 1) = ''1''"
    by (simp add: show_code_def decimal.simps)
  show ?thesis
    using close_settles_promise [OF a, of no_options "Some 0" "[GraceTimer]"]
      close_settles_promise [OF b, of no_options "Some 1" "[]"]
    by (simp add: out code1)
qed

section \<open>Properties of the auth gate\<close>

lemma split_not_Nil: "split c s \<noteq> []"
  by (induction s) (auto split: list.splits)

lemma split_single: "split c s = [p] \<longleftrightarrow> s = p \<and> c \<notin> set p"
proof (induction s arbitrary: p)
  case Nil
  then show ?case by auto
next
  case (Cons x xs)
  show ?case
  proof (cases "x = c")
    case True
    then show ?thesis using split_not_Nil [of c xs] by auto
  next
    case False
    obtain q qs where q: "split c xs = q # qs"
      using split_not_Nil [of c xs] by (cases "split c xs") auto
    show ?thesis
    proof (cases qs)
      case Nil
      with q have "xs = q \<and> c \<notin> set q" using Cons.IH [of q] by simp
      with False q Nil show ?thesis by auto
    next
      case (Cons r rs)
      with q have "\<not> (xs = tl p \<and> c \<notin> set (tl p))"
        using Cons.IH [of "tl p"] by simp
      with False q Cons show ?thesis by auto
    qed
  qed
qed

lemma split_pair: "split c s = [p, q] \<longleftrightarrow> s = p @ c # q \<and> c \<notin> set p \<and> c \<notin> set q"
proof (induction s arbitrary: p)
  case Nil
  then show ?case by auto
next
  case (Cons x xs)
  show ?case
  proof (cases "x = c")
    case True
    then show ?thesis using split_single [of c xs q] by (cases p) auto
  next
    case False
    obtain r rs where r: "split c xs = r # rs"
      using split_not_Nil [of c xs] by (cases "split c xs") auto
    show ?thesis
    proof (cases p)
      case Nil
      with False r show ?thesis by auto
    next
      case (Cons y ys)
      have "split c xs = [ys, q] \<longleftrightarrow> xs = ys @ c # q \<and> c \<notin> set ys \<and> c \<notin> set q"
        by (rule Cons.IH)
      with False r Cons show ?thesis by auto
    qed
  qed
qed

lemma bearer_form:
  "(length (split CHR '' '' a) = 2 \<and> split CHR '' '' a ! 0 = ''Bearer'') \<longleftrightarrow>
   (\<exists>tok. a = ''Bearer '' @ tok \<and> CHR '' '' \<notin> set tok)"
proof
  assume h: "length (split CHR '' '' a) = 2 \<and> split CHR '' '' a ! 0 = ''Bearer''"
  then obtain p q where pq: "split CHR '' '' a = [p, q]"
    by (cases "split CHR '' '' a"; cases "tl (split CHR '' '' a)") auto
  with h have "p = ''Bearer''" by simp
  with pq have "a = ''Bearer'' @ CHR '' '' # q \<and> CHR '' '' \<notin> set q"
    using split_pair [of "CHR '' ''" a p q] by simp
  then show "\<exists>tok. a = ''Bearer '' @ tok \<and> CHR '' '' \<notin> set tok"
    by auto
next
  assume "\<exists>tok. a = ''Bearer '' @ tok \<and> CHR '' '' \<notin> set tok"
  then obtain tok where t: "a = ''Bearer'' @ CHR '' '' # tok" "CHR '' '' \<notin> set tok"
    by auto
  then have "split CHR '' '' a = [''Bearer'', tok]"
    using split_pair [of "CHR '' ''" a "''Bearer''" tok] by simp
  then show "length (split CHR '' '' a) = 2 \<and> split CHR '' '' a ! 0 = ''Bearer''"
    by simp
qed

lemma bearer_token:
  assumes "CHR '' '' \<notin> set tok"
  shows "split CHR '' '' (''Bearer '' @ tok) = [''Bearer'', tok]"
  using assms split_pair [of "CHR '' ''" "''Bearer '' @ tok" "''Bearer''" tok] by simp

text \<open>
  Where claim C8 fails: a request with no header and a request with a rejected token both
  get status 401, with different messages.
\<close>

theorem auth_messages_differ_counterexample:
  "authMiddleware reject_all None =
     Inl \<lparr>status = 401, body = ErrorBody ''Missing Authorization header''\<rparr>
   \<and> authMiddleware reject_all (Some ''Basic dXNlcg=='') =
     Inl \<lparr>status = 401, body = ErrorBody ''Bad Authorization format''\<rparr>
   \<and> authMiddleware reject_all (Some ''Bearer abc'') =
     Inl \<lparr>status = 401, body = ErrorBody ''Invalid or expired token''\<rparr>"
  by (simp add: authMiddleware_def json_error_def reject_all_def)

text \<open>
  Claim C8, amended. Every failing authentication attempt is answered with status 401.
  The message names the cause: a missing (or empty) header, a header that is not
  \<^verbatim>\<open>Bearer\<close>, one space and a token without spaces, or a token that \<^verbatim>\<open>verifyToken\<close>
  rejects. Within the last cause the message is the same whatever made verification fail.
\<close>

theorem auth_failure_is_401:
  "(auth = None \<or> auth = Some [] \<longrightarrow>
      authMiddleware verify auth = Inl (json_error 401 ''Missing Authorization header''))
   \<and> (\<forall>a. auth = Some a \<and> a \<noteq> [] \<and> (\<nexists>tok. a = ''Bearer '' @ tok \<and> CHR '' '' \<notin> set tok) \<longrightarrow>
      authMiddleware verify auth = Inl (json_error 401 ''Bad Authorization format''))
   \<and> (\<forall>tok. auth = Some (''Bearer '' @ tok) \<and> CHR '' '' \<notin> set tok \<and> verify tok = None \<longrightarrow>
      authMiddleware verify auth = Inl (json_error 401 ''Invalid or expired token''))
   \<and> (\<forall>r. authMiddleware verify auth = Inl r \<longrightarrow> status r = 401)"
proof (intro conjI allI impI)
  assume "auth = None \<or> auth = Some []"
  then show "authMiddleware verify auth = Inl (json_error 401 ''Missing Authorization header'')"
    by (auto simp: authMiddleware_def)
next
  fix a
  assume h: "auth = Some a \<and> a \<noteq> [] \<and> (\<nexists>tok. a = ''Bearer '' @ tok \<and> CHR '' '' \<notin> set tok)"
  then have "\<not> (length (split CHR '' '' a) = 2 \<and> split CHR '' '' a ! 0 = ''Bearer'')"
    using bearer_form [of a] by blast
  with h show "authMiddleware verify auth = Inl (json_error 401 ''Bad Authorization format'')"
    by (auto simp: authMiddleware_def Let_def)
next
  fix tok
  assume h: "auth = Some (''Bearer '' @ tok) \<and> CHR '' '' \<notin> set tok \<and> verify tok = None"
  then have "split CHR '' '' (''Bearer '' @ tok) = [''Bearer'', tok]"
    using bearer_token by blast
  with h show "authMiddleware verify auth = Inl (json_error 401 ''Invalid or expired token'')"
    by (simp add: authMiddleware_def Let_def del: split.simps)
next
  fix r
  assume "authMiddleware verify auth = Inl r"
  then show "status r = 401"
    by (auto simp: authMiddleware_def Let_def json_error_def split: option.splits if_splits)
qed

theorem auth_failure_is_401_witness:
  "authMiddleware reject_all (Some ''Bearer abc'') = Inl (json_error 401 ''Invalid or expired token'')
   \<and> status (json_error 401 ''Invalid or expired token'') = 401"
  using auth_failure_is_401 [of "Some ''Bearer abc''" reject_all]
  by (simp add: reject_all_def json_error_def)

section \<open>Properties of the input validators\<close>

text \<open>
  Claim C9. \<^verbatim>\<open>isValidFqbn\<close> accepts an absent or empty board identifier and rejects every
  string of length 1 or 2, whatever its characters; the flash route then answers 400
  \<^verbatim>\<open>Invalid FQBN value\<close> (the request being authenticated, with a sketch path and a valid
  port). Such a string made of allowed characters meets the constraint as the
  specification words it.
\<close>

theorem short_fqbn_rejected:
  "isValidFqbn JUndefined \<and> isValidFqbn JNull \<and> isValidFqbn (JStr [])
   \<and> (length s = 1 \<or> length s = 2 \<longrightarrow>
        \<not> isValidFqbn (JStr s)
        \<and> (list_all (\<lambda>c. is_word_char c \<or> c \<in> set '':.-'') s \<longrightarrow> spec_fqbn_ok s)
        \<and> (authMiddleware (verifyToken e) (authorization req) = Inr u
            \<and> truthy (sketchPath (req_body req)) \<and> truthy (port (req_body req))
            \<and> isValidSerialPort (port (req_body req))
            \<and> fqbn (req_body req) = JStr s \<longrightarrow>
            flash_route e req = (Some (json_error 400 ''Invalid FQBN value''), [])))"
proof -
  have absent: "isValidFqbn JUndefined \<and> isValidFqbn JNull \<and> isValidFqbn (JStr [])"
    by (simp add: isValidFqbn_def)
  have short: "\<not> isValidFqbn (JStr s)" if "length s = 1 \<or> length s = 2"
    using that by (auto simp: isValidFqbn_def FQBN_PATTERN_def)
  have spec: "spec_fqbn_ok s"
    if "length s = 1 \<or> length s = 2" "list_all (\<lambda>c. is_word_char c \<or> c \<in> set '':.-'') s"
    using that by (auto simp: spec_fqbn_ok_def)
  have route: "flash_route e req = (Some (json_error 400 ''Invalid FQBN value''), [])"
    if len: "length s = 1 \<or> length s = 2"
      and req: "authMiddleware (verifyToken e) (authorization req) = Inr u
        \<and> truthy (sketchPath (req_body req)) \<and> truthy (port (req_body req))
        \<and> isValidSerialPort (port (req_body req))
        \<and> fqbn (req_body req) = JStr s"
  proof -
    from req have "\<not> isValidFqbn (fqbn (req_body req))"
      using short [OF len] by simp
    with req show ?thesis
      by (simp add: flash_route_def flash_handler_def flash_validate_def)
  qed
  show ?thesis
    using absent short spec route by blast
qed

theorem short_fqbn_rejected_witness:
  "\<not> isValidFqbn (JStr ''ab'') \<and> spec_fqbn_ok ''ab''
   \<and> flash_route (demo_env all_succeed) short_fqbn_request =
       (Some (json_error 400 ''Invalid FQBN value''), [])"
proof -
  have chars: "list_all (\<lambda>c. is_word_char c \<or> c \<in> set '':.-'') ''ab''"
    by (simp add: is_word_char_def)
  have auth: "authMiddleware (verifyToken (demo_env all_succeed)) (authorization short_fqbn_request)
      = Inr ()"
    by (simp add: authMiddleware_def demo_env_def short_fqbn_request_def accept_all_def)
  have port: "isValidSerialPort (port (req_body short_fqbn_request))"
    by (simp add: short_fqbn_request_def isValidSerialPort_def SERIAL_PORT_PATTERN_def
        is_word_char_def)
  have fields: "truthy (sketchPath (req_body short_fqbn_request))"
    "truthy (port (req_body short_fqbn_request))"
    "fqbn (req_body short_fqbn_request) = JStr ''ab''"
    by (simp_all add: short_fqbn_request_def)
  have len: "length ''ab'' = 1 \<or> length ''ab'' = 2"
    by simp
  show ?thesis
    using short_fqbn_rejected [of "''ab''" "demo_env all_succeed" short_fqbn_request "()"]
      chars auth port fields len
    by blast
qed

lemma normalize_dotted_name: "posix_normalize ''my..sketch.ino'' = ''my..sketch.ino''"
  by (simp add: posix_normalize_def normalizeString_def normalizeSegment_def)

lemma trim_dotted_name: "trim (backslashes_to_slashes ''my..sketch.ino'') = ''my..sketch.ino''"
  by (simp add: trim_def backslashes_to_slashes_def is_js_space_def)

text \<open>
  Where claim C10 fails: for the empty string \<^verbatim>\<open>sanitizePath\<close> would return \<^verbatim>\<open>null\<close>, but
  the handler never calls it. The empty string is falsy, so the presence check answers 400
  \<^verbatim>\<open>Missing sketchPath or port\<close>, not \<^verbatim>\<open>Invalid sketch path\<close>.
\<close>

theorem empty_path_is_missing_counterexample:
  "sanitizePath (JStr []) = None
   \<and> flash_route (demo_env all_succeed) empty_path_request =
       (Some \<lparr>status = 400, body = ErrorBody ''Missing sketchPath or port''\<rparr>, [])"
  by (simp add: sanitizePath_def trim_def backslashes_to_slashes_def flash_route_def
      flash_handler_def flash_validate_def empty_path_request_def demo_env_def accept_all_def
      authMiddleware_def json_error_def)

text \<open>
  Claim C10, amended. \<^verbatim>\<open>sanitizePath\<close> returns \<^verbatim>\<open>null\<close> for every string whose normalized
  form contains two consecutive dots anywhere (so for \<^verbatim>\<open>my..sketch.ino\<close>, which has no
  \<^verbatim>\<open>..\<close> segment), for every value that is not a string, and for every string that is
  empty after its backslashes are replaced and it is trimmed. In an authenticated request
  the flash route answers 400 either way: \<^verbatim>\<open>Missing sketchPath or port\<close> when the sketch
  path is falsy (absent, \<^verbatim>\<open>null\<close>, the empty string, \<^verbatim>\<open>0\<close>, \<^verbatim>\<open>false\<close>), and
  \<^verbatim>\<open>Invalid sketch path\<close> when it is truthy, \<^verbatim>\<open>sanitizePath\<close> returns \<^verbatim>\<open>null\<close> for it
  and the port and board-identifier checks have passed.
\<close>

theorem sanitizePath_rejects:
  "(str_includes (posix_normalize (trim (backslashes_to_slashes s))) ''..'' \<longrightarrow>
      sanitizePath (JStr s) = None)
   \<and> sanitizePath (JStr ''my..sketch.ino'') = None
   \<and> (\<not> is_string v \<longrightarrow> sanitizePath v = None)
   \<and> (trim (backslashes_to_slashes s) = [] \<longrightarrow> sanitizePath (JStr s) = None)
   \<and> (authMiddleware (verifyToken e) (authorization req) = Inr u
       \<and> truthy (sketchPath (req_body req)) \<and> truthy (port (req_body req))
       \<and> isValidSerialPort (port (req_body req)) \<and> isValidFqbn (fqbn (req_body req))
       \<and> sanitizePath (sketchPath (req_body req)) = None \<longrightarrow>
       flash_route e req = (Some (json_error 400 ''Invalid sketch path''), []))
   \<and> (authMiddleware (verifyToken e) (authorization req) = Inr u
       \<and> \<not> truthy (sketchPath (req_body req)) \<longrightarrow>
       flash_route e req = (Some (json_error 400 ''Missing sketchPath or port''), []))
   \<and> (\<not> truthy v \<longleftrightarrow> v \<in> {JUndefined, JNull, JStr [], JNum 0, JBool False})"
proof -
  have dots: "sanitizePath (JStr s) = None"
    if "str_includes (posix_normalize (trim (backslashes_to_slashes s))) ''..''"
    using that by (simp add: sanitizePath_def Let_def)
  have name: "sanitizePath (JStr ''my..sketch.ino'') = None"
    by (simp add: sanitizePath_def Let_def trim_dotted_name normalize_dotted_name
        del: str_includes.simps) simp
  have other: "sanitizePath v = None" if "\<not> is_string v"
    using that by (cases v) (simp_all add: sanitizePath_def)
  have blank: "sanitizePath (JStr s) = None" if "trim (backslashes_to_slashes s) = []"
    using that by (simp add: sanitizePath_def)
  have route: "flash_route e req = (Some (json_error 400 ''Invalid sketch path''), [])"
    if "authMiddleware (verifyToken e) (authorization req) = Inr u
       \<and> truthy (sketchPath (req_body req)) \<and> truthy (port (req_body req))
       \<and> isValidSerialPort (port (req_body req)) \<and> isValidFqbn (fqbn (req_body req))
       \<and> sanitizePath (sketchPath (req_body req)) = None"
    using that by (simp add: flash_route_def flash_handler_def flash_validate_def)
  have falsy: "flash_route e req = (Some (json_error 400 ''Missing sketchPath or port''), [])"
    if "authMiddleware (verifyToken e) (authorization req) = Inr u
       \<and> \<not> truthy (sketchPath (req_body req))"
    using that by (simp add: flash_route_def flash_handler_def flash_validate_def)
  have which: "\<not> truthy v \<longleftrightarrow> v \<in> {JUndefined, JNull, JStr [], JNum 0, JBool False}"
    by (cases v) auto
  show ?thesis
    using dots name other blank route falsy which by blast
qed

theorem sanitizePath_rejects_witness:
  "sanitizePath (JStr ''a/b..c/d.ino'') = None
   \<and> sanitizePath (JNum 7) = None
   \<and> sanitizePath (JStr ''   '') = None
   \<and> flash_route (demo_env all_succeed) dotted_name_request =
       (Some (json_error 400 ''Invalid sketch path''), [])
   \<and> flash_route (demo_env all_succeed) empty_path_request =
       (Some (json_error 400 ''Missing sketchPath or port''), [])"
proof -
  have dots: "str_includes (posix_normalize (trim (backslashes_to_slashes ''a/b..c/d.ino''))) ''..''"
    by (simp add: trim_def backslashes_to_slashes_def is_js_space_def posix_normalize_def
        normalizeString_def normalizeSegment_def)
  have blank: "trim (backslashes_to_slashes ''   '') = []"
    by (simp add: trim_def backslashes_to_slashes_def is_js_space_def)
  have auth: "authMiddleware (verifyToken (demo_env all_succeed)) (authorization dotted_name_request)
      = Inr ()"
    by (simp add: authMiddleware_def demo_env_def dotted_name_request_def accept_all_def)
  have port: "isValidSerialPort (port (req_body dotted_name_request))"
    by (simp add: dotted_name_request_def isValidSerialPort_def SERIAL_PORT_PATTERN_def
        is_word_char_def)
  have fields: "truthy (sketchPath (req_body dotted_name_request))"
    "truthy (port (req_body dotted_name_request))"
    "isValidFqbn (fqbn (req_body dotted_name_request))"
    "sketchPath (req_body dotted_name_request) = JStr ''my..sketch.ino''"
    by (simp_all add: dotted_name_request_def isValidFqbn_def)
  have a: "sanitizePath (JStr ''a/b..c/d.ino'') = None"
    using sanitizePath_rejects [of "''a/b..c/d.ino''" JNull "demo_env all_succeed"
        dotted_name_request "()"] dots by blast
  have b: "sanitizePath (JNum 7) = None"
    using sanitizePath_rejects [of "''x''" "JNum 7" "demo_env all_succeed"
        dotted_name_request "()"] by simp
  have c: "sanitizePath (JStr ''   '') = None"
    using sanitizePath_rejects [of "''   ''" JNull "demo_env all_succeed"
        dotted_name_request "()"] blank by blast
  have d: "flash_route (demo_env all_succeed) dotted_name_request =
       (Some (json_error 400 ''Invalid sketch path''), [])"
    using sanitizePath_rejects [of "''my..sketch.ino''" JNull "demo_env all_succeed"
        dotted_name_request "()"] auth port fields
    by simp
  have auth': "authMiddleware (verifyToken (demo_env all_succeed)) (authorization empty_path_request)
      = Inr ()"
    by (simp add: authMiddleware_def demo_env_def empty_path_request_def accept_all_def)
  have e: "flash_route (demo_env all_succeed) empty_path_request =
       (Some (json_error 400 ''Missing sketchPath or port''), [])"
    using sanitizePath_rejects [of "''x''" JNull "demo_env all_succeed" empty_path_request "()"]
      auth' by (simp add: empty_path_request_def)
  from a b c d e show ?thesis by blast
qed

section \<open>Properties of the flash workflow\<close>

lemma hd_compileArgs: "hd (compileArgs j) = ''compile''"
  by (simp add: compileArgs_def)

lemma flash_run_upload:
  assumes "args \<in> set (snd (flash_run e j))" and "hd args = ''upload''"
  shows "\<exists>out1. spawnCliAndStream no_options (cli e [[''version'']] (compileArgs j)) = Resolved out1
           \<and> snd (flash_run e j) = [[''version''], compileArgs j, uploadArgs j]"
proof (cases "probe (cli e [] [''version''])")
  case None
  with assms show ?thesis by (simp add: flash_run_def)
next
  case (Some ok)
  show ?thesis
  proof (cases ok)
    case False
    with Some assms show ?thesis by (simp add: flash_run_def)
  next
    case True
    show ?thesis
    proof (cases "spawnCliAndStream no_options (cli e [[''version'']] (compileArgs j))")
      case Pending
      with Some True assms show ?thesis
        by (auto simp: flash_run_def Let_def hd_compileArgs)
    next
      case (Rejected err)
      with Some True assms show ?thesis
        by (auto simp: flash_run_def Let_def hd_compileArgs)
    next
      case (Resolved out1)
      with Some True show ?thesis
        by (auto simp: flash_run_def Let_def split: promise.splits)
    qed
  qed
qed

lemma flash_run_compile_rejected:
  assumes "probe (cli e [] [''version'']) = Some True"
    and "spawnCliAndStream no_options (cli e [[''version'']] (compileArgs j)) = Rejected err"
  shows "flash_run e j = (Some (failure_response err), [[''version''], compileArgs j])"
  using assms by (simp add: flash_run_def Let_def)

lemma flash_route_spawned:
  assumes "args \<in> set (snd (flash_route e req))"
  shows "\<exists>j. flash_validate e (req_body req) = Inr j \<and> flash_route e req = flash_run e j"
  using assms
  by (auto simp: flash_route_def flash_handler_def split: sum.splits)

text \<open>
  Claim C1. In every flash request, an \<^verbatim>\<open>upload\<close> process is spawned only when the
  \<^verbatim>\<open>compile\<close> process of the same request was spawned before it and its promise resolved;
  the processes spawned are then \<^verbatim>\<open>version\<close>, \<^verbatim>\<open>compile\<close>, \<^verbatim>\<open>upload\<close>, in this order.
  Whenever the compile promise rejects, the request spawns \<^verbatim>\<open>version\<close> and \<^verbatim>\<open>compile\<close>
  only and is answered with status 500.
\<close>

theorem upload_only_after_compile:
  "(args \<in> set (snd (flash_route e req)) \<and> hd args = ''upload'' \<longrightarrow>
      (\<exists>j out1. flash_validate e (req_body req) = Inr j
         \<and> spawnCliAndStream no_options (cli e [[''version'']] (compileArgs j)) = Resolved out1
         \<and> snd (flash_route e req) = [[''version''], compileArgs j, uploadArgs j]))
   \<and> (authMiddleware (verifyToken e) (authorization req) = Inr u
       \<and> flash_validate e (req_body req) = Inr j
       \<and> probe (cli e [] [''version'']) = Some True
       \<and> spawnCliAndStream no_options (cli e [[''version'']] (compileArgs j)) = Rejected err \<longrightarrow>
       flash_route e req = (Some (failure_response err), [[''version''], compileArgs j])
       \<and> status (failure_response err) = 500
       \<and> (\<forall>spawned\<in>set (snd (flash_route e req)). hd spawned \<noteq> ''upload''))"
proof (rule conjI; rule impI)
  assume h: "args \<in> set (snd (flash_route e req)) \<and> hd args = ''upload''"
  then obtain j where j: "flash_validate e (req_body req) = Inr j"
    and run: "flash_route e req = flash_run e j"
    using flash_route_spawned by blast
  from h run have "args \<in> set (snd (flash_run e j))" "hd args = ''upload''"
    by simp_all
  then obtain out1 where
    "spawnCliAndStream no_options (cli e [[''version'']] (compileArgs j)) = Resolved out1"
    "snd (flash_run e j) = [[''version''], compileArgs j, uploadArgs j]"
    using flash_run_upload by blast
  with j run show "\<exists>j out1. flash_validate e (req_body req) = Inr j
         \<and> spawnCliAndStream no_options (cli e [[''version'']] (compileArgs j)) = Resolved out1
         \<and> snd (flash_route e req) = [[''version''], compileArgs j, uploadArgs j]"
    by auto
next
  assume h: "authMiddleware (verifyToken e) (authorization req) = Inr u
       \<and> flash_validate e (req_body req) = Inr j
       \<and> probe (cli e [] [''version'']) = Some True
       \<and> spawnCliAndStream no_options (cli e [[''version'']] (compileArgs j)) = Rejected err"
  then have "flash_run e j = (Some (failure_response err), [[''version''], compileArgs j])"
    using flash_run_compile_rejected by blast
  with h have route: "flash_route e req = (Some (failure_response err), [[''version''], compileArgs j])"
    by (simp add: flash_route_def flash_handler_def)
  moreover have "status (failure_response err) = 500"
    by (simp add: failure_response_def json_error_def)
  moreover have "\<forall>spawned\<in>set (snd (flash_route e req)). hd spawned \<noteq> ''upload''"
    using route by (simp add: hd_compileArgs)
  ultimately show "flash_route e req = (Some (failure_response err), [[''version''], compileArgs j])
       \<and> status (failure_response err) = 500
       \<and> (\<forall>spawned\<in>set (snd (flash_route e req)). hd spawned \<noteq> ''upload'')"
    by blast
qed

lemma blink_validates: "flash_validate (demo_env tool) (req_body blink_request) = Inr blink_job"
  by (simp add: flash_validate_def blink_request_def blink_job_def demo_env_def demo_files_def
      isValidSerialPort_def SERIAL_PORT_PATTERN_def isValidFqbn_def FQBN_PATTERN_def
      is_word_char_def sanitizePath_def trim_def backslashes_to_slashes_def is_js_space_def
      posix_normalize_def normalizeString_def normalizeSegment_def PROJECT_ROOT_def
      posix_resolve_def startsWith_def posix_extname_def last_component_def toLowerCase_def
      lower_char_def ALLOWED_SKETCH_EXTENSIONS_def Let_def)

lemma demo_auth: "authMiddleware (verifyToken (demo_env tool)) (Some ''Bearer t0k3n'') = Inr ()"
  by (simp add: authMiddleware_def demo_env_def accept_all_def)

lemma demo_probe:
  "probe (cli (demo_env compile_fails) [] [''version'']) = Some True"
  "probe (cli (demo_env all_succeed) [] [''version'']) = Some True"
  by (simp_all add: demo_env_def compile_fails_def all_succeed_def)

lemma blink_compile_fails:
  "spawnCliAndStream no_options (cli (demo_env compile_fails) [[''version'']] (compileArgs blink_job)) =
     Rejected \<lparr>message = ''arduino-cli exited with code 1'', cause = None,
               err_timedOut = Some False, cliOutput = map of_char ''error: expected ;''\<rparr>"
  by (simp add: demo_env_def compile_fails_def compileArgs_def spawnCliAndStream_def run_events_def
      runner_start_def on_close_def settle_def appendChunk_def toString_ascii no_options_def
      effective_maxBuffer_def CLI_MAX_OUTPUT_BYTES_def show_code_def decimal.simps)

theorem upload_only_after_compile_witness:
  "flash_route (demo_env compile_fails) blink_request =
     (Some (json_error 500 ''Failed to compile or upload sketch''),
      [[''version''], [''compile'', ''/srv/app/sketches/blink.ino'', ''--fqbn'', ''esp32:esp32:esp32'']])"
proof -
  let ?err = "\<lparr>message = ''arduino-cli exited with code 1'', cause = None,
               err_timedOut = Some False, cliOutput = map of_char ''error: expected ;''\<rparr>"
  have auth: "authMiddleware (verifyToken (demo_env compile_fails)) (authorization blink_request) = Inr ()"
    using demo_auth by (simp add: blink_request_def)
  have "flash_route (demo_env compile_fails) blink_request =
      (Some (failure_response ?err), [[''version''], compileArgs blink_job])"
    using upload_only_after_compile
      [of "[]" "demo_env compile_fails" blink_request "()" blink_job ?err]
      auth blink_validates [of compile_fails] demo_probe(1) blink_compile_fails
    by blast
  then show ?thesis
    by (simp add: failure_response_def compileArgs_def fqbn_args_def blink_job_def)
qed

text \<open>
  Claim C2 at an input it does not cover. The server lives in \<^verbatim>\<open>/srv/app/backend\<close>, so the
  project root is \<^verbatim>\<open>/srv/app\<close>. The absolute sketch path \<^verbatim>\<open>/srv/app-evil/x.ino\<close> names
  an existing file in a sibling directory, outside the root; as a string it starts with
  \<^verbatim>\<open>/srv/app\<close>, so validation passes and the file is compiled and uploaded.
\<close>

theorem sibling_directory_passes_validation:
  "PROJECT_ROOT (demo_env all_succeed) = ''/srv/app''
   \<and> sanitizePath (JStr ''/srv/app-evil/x.ino'') = Some ''/srv/app-evil/x.ino''
   \<and> \<not> within_directory ''/srv/app'' ''/srv/app-evil/x.ino''
   \<and> flash_route (demo_env all_succeed) sibling_request =
       (Some \<lparr>status = 200, body = OkBody ''Upload complete''\<rparr>,
        [[''version''], [''compile'', ''/srv/app-evil/x.ino''],
         [''upload'', ''/srv/app-evil/x.ino'', ''--port'', ''/dev/ttyUSB0'']])"
proof -
  have root: "PROJECT_ROOT (demo_env all_succeed) = ''/srv/app''"
    by (simp add: PROJECT_ROOT_def demo_env_def posix_resolve_def normalizeString_def
        normalizeSegment_def)
  have clean: "sanitizePath (JStr ''/srv/app-evil/x.ino'') = Some ''/srv/app-evil/x.ino''"
    by (simp add: sanitizePath_def trim_def backslashes_to_slashes_def is_js_space_def
        posix_normalize_def normalizeString_def normalizeSegment_def Let_def)
  have outside: "\<not> within_directory ''/srv/app'' ''/srv/app-evil/x.ino''"
    by (simp add: within_directory_def startsWith_def)
  have valid: "flash_validate (demo_env all_succeed) (req_body sibling_request) =
       Inr \<lparr>resolvedSketch = ''/srv/app-evil/x.ino'', job_port = ''/dev/ttyUSB0'', job_fqbn = None\<rparr>"
    by (simp add: flash_validate_def sibling_request_def clean root isValidSerialPort_def
        SERIAL_PORT_PATTERN_def isValidFqbn_def is_word_char_def)
      (simp add: demo_env_def demo_files_def posix_resolve_def normalizeString_def
        normalizeSegment_def startsWith_def posix_extname_def last_component_def toLowerCase_def
        lower_char_def ALLOWED_SKETCH_EXTENSIONS_def Let_def)
  have run: "flash_run (demo_env all_succeed)
       \<lparr>resolvedSketch = ''/srv/app-evil/x.ino'', job_port = ''/dev/ttyUSB0'', job_fqbn = None\<rparr> =
       (Some \<lparr>status = 200, body = OkBody ''Upload complete''\<rparr>,
        [[''version''], [''compile'', ''/srv/app-evil/x.ino''],
         [''upload'', ''/srv/app-evil/x.ino'', ''--port'', ''/dev/ttyUSB0'']])"
    by (simp add: flash_run_def demo_env_def all_succeed_def compileArgs_def uploadArgs_def
        fqbn_args_def spawnCliAndStream_def run_events_def runner_start_def on_close_def
        settle_def appendChunk_def toString_ascii no_options_def effective_maxBuffer_def
        CLI_MAX_OUTPUT_BYTES_def)
  have "flash_route (demo_env all_succeed) sibling_request =
       (Some \<lparr>status = 200, body = OkBody ''Upload complete''\<rparr>,
        [[''version''], [''compile'', ''/srv/app-evil/x.ino''],
         [''upload'', ''/srv/app-evil/x.ino'', ''--port'', ''/dev/ttyUSB0'']])"
    using demo_auth [of all_succeed] valid run
    by (simp add: flash_route_def flash_handler_def sibling_request_def)
  with root clean outside show ?thesis by blast
qed

text \<open>
  What validation of a flash request guarantees. Every rejection is a 400. A request passes
  only with a sketch path that \<^verbatim>\<open>sanitizePath\<close> accepts and whose resolution against the
  project root starts with the root as a string, has extension \<^verbatim>\<open>.ino\<close> or \<^verbatim>\<open>.bin\<close>
  (in any letter case) and is an existing regular file; so a path whose file does not exist
  is rejected with 400. Conversely, once the presence, port, board-identifier, sanitizing,
  prefix and extension checks have passed, the outcome is decided by the file system alone:
  \<^verbatim>\<open>Sketch file not found\<close>, \<^verbatim>\<open>Sketch path must point to a file\<close>, or acceptance of a
  regular file. The path \<^verbatim>\<open>../../etc/passwd\<close> is rejected wherever the server lives.
\<close>

theorem flash_validate_outcomes:
  "(flash_validate e b = Inl r \<longrightarrow> status r = 400)
   \<and> (flash_validate e b = Inr j \<longrightarrow>
        (\<exists>p. sanitizePath (sketchPath b) = Some p
           \<and> resolvedSketch j = posix_resolve (cwd e) [PROJECT_ROOT e, p])
        \<and> startsWith (resolvedSketch j) (PROJECT_ROOT e)
        \<and> toLowerCase (posix_extname (resolvedSketch j)) \<in> {''.ino'', ''.bin''}
        \<and> statSync e (resolvedSketch j) = Some RegularFile)
   \<and> (sanitizePath (sketchPath b) = Some p
        \<and> statSync e (posix_resolve (cwd e) [PROJECT_ROOT e, p]) = None \<longrightarrow>
        (\<exists>msg. flash_validate e b = Inl (json_error 400 msg)))
   \<and> (truthy (sketchPath b) \<and> truthy (port b) \<and> isValidSerialPort (port b)
        \<and> isValidFqbn (fqbn b) \<and> sanitizePath (sketchPath b) = Some p \<and> p \<noteq> []
        \<and> startsWith (posix_resolve (cwd e) [PROJECT_ROOT e, p]) (PROJECT_ROOT e)
        \<and> toLowerCase (posix_extname (posix_resolve (cwd e) [PROJECT_ROOT e, p]))
              \<in> {''.ino'', ''.bin''} \<longrightarrow>
        flash_validate e b =
          (case statSync e (posix_resolve (cwd e) [PROJECT_ROOT e, p]) of
             None \<Rightarrow> Inl (json_error 400 ''Sketch file not found'')
           | Some RegularFile \<Rightarrow>
               Inr \<lparr>resolvedSketch = posix_resolve (cwd e) [PROJECT_ROOT e, p],
                    job_port = str_of (port b),
                    job_fqbn = (if truthy (fqbn b) then Some (str_of (fqbn b)) else None)\<rparr>
           | Some other \<Rightarrow> Inl (json_error 400 ''Sketch path must point to a file'')))
   \<and> flash_validate e traversal_body = Inl (json_error 400 ''Invalid sketch path'')"
proof -
  have rejected: "status r = 400" if "flash_validate e b = Inl r"
    using that
    by (auto simp: flash_validate_def json_error_def Let_def split: if_splits option.splits)
  have passed: "(\<exists>p. sanitizePath (sketchPath b) = Some p
           \<and> resolvedSketch j = posix_resolve (cwd e) [PROJECT_ROOT e, p])
        \<and> startsWith (resolvedSketch j) (PROJECT_ROOT e)
        \<and> toLowerCase (posix_extname (resolvedSketch j)) \<in> {''.ino'', ''.bin''}
        \<and> statSync e (resolvedSketch j) = Some RegularFile"
    if "flash_validate e b = Inr j"
    using that
    by (auto simp: flash_validate_def ALLOWED_SKETCH_EXTENSIONS_def Let_def
        split: if_splits option.splits)
  have missing: "\<exists>msg. flash_validate e b = Inl (json_error 400 msg)"
    if "sanitizePath (sketchPath b) = Some p
        \<and> statSync e (posix_resolve (cwd e) [PROJECT_ROOT e, p]) = None"
    using that by (auto simp: flash_validate_def Let_def)
  have passwd: "sanitizePath (JStr ''../../etc/passwd'') = None"
    by (simp add: sanitizePath_def trim_def backslashes_to_slashes_def is_js_space_def
        posix_normalize_def normalizeString_def normalizeSegment_def Let_def)
  have traversal: "flash_validate e traversal_body = Inl (json_error 400 ''Invalid sketch path'')"
    by (simp add: flash_validate_def traversal_body_def passwd isValidSerialPort_def
        SERIAL_PORT_PATTERN_def isValidFqbn_def is_word_char_def)
  have checked: "flash_validate e b =
          (case statSync e (posix_resolve (cwd e) [PROJECT_ROOT e, p]) of
             None \<Rightarrow> Inl (json_error 400 ''Sketch file not found'')
           | Some RegularFile \<Rightarrow>
               Inr \<lparr>resolvedSketch = posix_resolve (cwd e) [PROJECT_ROOT e, p],
                    job_port = str_of (port b),
                    job_fqbn = (if truthy (fqbn b) then Some (str_of (fqbn b)) else None)\<rparr>
           | Some other \<Rightarrow> Inl (json_error 400 ''Sketch path must point to a file''))"
    if "truthy (sketchPath b) \<and> truthy (port b) \<and> isValidSerialPort (port b)
        \<and> isValidFqbn (fqbn b) \<and> sanitizePath (sketchPath b) = Some p \<and> p \<noteq> []
        \<and> startsWith (posix_resolve (cwd e) [PROJECT_ROOT e, p]) (PROJECT_ROOT e)
        \<and> toLowerCase (posix_extname (posix_resolve (cwd e) [PROJECT_ROOT e, p]))
              \<in> {''.ino'', ''.bin''}"
    using that
    by (auto simp: flash_validate_def ALLOWED_SKETCH_EXTENSIONS_def Let_def
        split: option.splits file_kind.splits)
  show ?thesis
    using rejected passed missing checked traversal by blast
qed

theorem flash_validate_outcomes_witness:
  "flash_validate (demo_env all_succeed) (req_body blink_request) = Inr blink_job
   \<and> startsWith (resolvedSketch blink_job) (PROJECT_ROOT (demo_env all_succeed))
   \<and> statSync (demo_env all_succeed) (resolvedSketch blink_job) = Some RegularFile"
  using flash_validate_outcomes
    [of "demo_env all_succeed" "req_body blink_request" "json_error 400 []" blink_job "[]"]
    blink_validates [of all_succeed]
  by blast

end
